theory Spec2Isabelle
  imports Complex_Main
begin

section \<open>Python strings\<close>

text \<open>
  A Python \<open>str\<close> is a sequence of Unicode code points, and \<open>len\<close> counts code
  points.  A string is therefore modelled as the list of its code points, so that the
  Cyrillic text the program handles has the length Python gives it.  ASCII literals of
  the source are written with \<open>py\<close>.
\<close>

type_synonym pystr = "nat list"

definition py :: "string \<Rightarrow> pystr" where
  "py s = map of_char s"

text \<open>\<open>str(n)\<close> for a Python \<open>int\<close>: the decimal digits, with a sign.\<close>

function digits :: "nat \<Rightarrow> pystr" where
  "digits n = (if n < 10 then [48 + n] else digits (n div 10) @ [48 + n mod 10])"
  by pat_completeness auto
termination
  by (relation "measure id") auto

declare digits.simps [simp del]

definition str_int :: "int \<Rightarrow> pystr" where
  "str_int i = (if i < 0 then 45 # digits (nat (- i)) else digits (nat i))"

section \<open>The URL queue (\<open>url_queue.py\<close>)\<close>

text \<open>
  \<open>UrlTask.source\<close> is whatever the caller passes: the chat front end passes the
  integer chat id, the default is the string \<open>"unknown"\<close>.  The f-string of
  \<open>__post_init__\<close> renders it with \<open>str\<close>.
\<close>

datatype source = SrcStr pystr | SrcInt int

fun source_str :: "source \<Rightarrow> pystr" where
  "source_str (SrcStr s) = s"
| "source_str (SrcInt i) = str_int i"

record UrlTask =
  url :: pystr
  source :: source
  added_at :: int
  task_id :: pystr

text \<open>
  The two clock readings of \<open>__post_init__\<close>: \<open>datetime.now()\<close> (kept as a
  timestamp) and \<open>int(time.time())\<close>.
\<close>

record clock =
  now_dt :: int
  now_epoch :: int

definition new_task :: "pystr \<Rightarrow> source \<Rightarrow> clock \<Rightarrow> UrlTask" where
  "new_task u s c =
     \<lparr>url = u, source = s, added_at = now_dt c,
      task_id = source_str s @ py ''_'' @ str_int (now_epoch c)\<rparr>"

record UrlQueue =
  max_size :: int
  queue :: "UrlTask list"
  processing_task :: "UrlTask option"

definition init_queue :: "int \<Rightarrow> UrlQueue" where
  "init_queue m = \<lparr>max_size = m, queue = [], processing_task = None\<rparr>"

text \<open>The dictionary \<open>add_url\<close> returns.\<close>

record add_result =
  r_success :: bool
  r_message :: pystr
  r_task_id :: "pystr option"
  r_position :: int
  r_queue_size :: int

definition msg_queue_full :: "int \<Rightarrow> pystr" where
  "msg_queue_full m =
     [1054, 1095, 1077, 1088, 1077, 1076, 1100, 32, 1087, 1077, 1088, 1077, 1087, 1086,
      1083, 1085, 1077, 1085, 1072, 32, 40, 1084, 1072, 1082, 1089, 1080, 1084, 1091,
      1084, 32] @ str_int m @ [32, 1089, 1089, 1099, 1083, 1086, 1082, 41]"

definition msg_added :: pystr where
  "msg_added =
     [85, 82, 76, 32, 1076, 1086, 1073, 1072, 1074, 1083, 1077, 1085, 32, 1074, 32, 1086,
      1095, 1077, 1088, 1077, 1076, 1100]"

definition add_url :: "UrlQueue \<Rightarrow> pystr \<Rightarrow> source \<Rightarrow> clock \<Rightarrow> add_result \<times> UrlQueue" where
  "add_url q u s c =
     (if int (length (queue q)) \<ge> max_size q then
        (\<lparr>r_success = False, r_message = msg_queue_full (max_size q), r_task_id = None,
          r_position = - 1, r_queue_size = int (length (queue q))\<rparr>, q)
      else
        (let task = new_task u s c;
             q' = q\<lparr>queue := queue q @ [task]\<rparr>
         in (\<lparr>r_success = True, r_message = msg_added, r_task_id = Some (task_id task),
              r_position = int (length (queue q')),
              r_queue_size = int (length (queue q'))\<rparr>, q')))"

definition get_next_url :: "UrlQueue \<Rightarrow> UrlTask option \<times> UrlQueue" where
  "get_next_url q =
     (case queue q of
        [] \<Rightarrow> (None, q)
      | task # rest \<Rightarrow> (Some task, q\<lparr>queue := rest, processing_task := Some task\<rparr>))"

definition mark_completed :: "UrlQueue \<Rightarrow> pystr \<Rightarrow> bool \<times> UrlQueue" where
  "mark_completed q tid =
     (case processing_task q of
        Some t \<Rightarrow> (if task_id t = tid then (True, q\<lparr>processing_task := None\<rparr>)
                   else (False, q))
      | None \<Rightarrow> (False, q))"

text \<open>A run of \<open>add_url\<close> calls, and a run of \<open>get_next_url\<close> calls.\<close>

fun add_urls :: "UrlQueue \<Rightarrow> (pystr \<times> source \<times> clock) list \<Rightarrow> add_result list \<times> UrlQueue" where
  "add_urls q [] = ([], q)"
| "add_urls q ((u, s, c) # reqs) =
     (let (r, q1) = add_url q u s c;
          (rs, q2) = add_urls q1 reqs
      in (r # rs, q2))"

fun get_next_urls :: "nat \<Rightarrow> UrlQueue \<Rightarrow> UrlTask option list \<times> UrlQueue" where
  "get_next_urls 0 q = ([], q)"
| "get_next_urls (Suc n) q =
     (let (t, q1) = get_next_url q;
          (ts, q2) = get_next_urls n q1
      in (t # ts, q2))"


section \<open>The worker's job step (\<open>telegram_main.process_single_url\<close>)\<close>

text \<open>
  Exceptions are values.  Only subclasses of \<open>Exception\<close> are represented (these are
  what \<open>except Exception\<close> catches); \<open>exn_str\<close> is \<open>str(e)\<close>.
\<close>

datatype exn = AttributeError pystr | TypeError pystr | ValueError pystr | OtherError pystr

fun exn_str :: "exn \<Rightarrow> pystr" where
  "exn_str (AttributeError m) = m"
| "exn_str (TypeError m) = m"
| "exn_str (ValueError m) = m"
| "exn_str (OtherError m) = m"

datatype 'a attempt = Returns 'a | Raises exn

text \<open>
  What \<open>process_single_url\<close> reads from the dictionary returned by
  \<open>yt_processor.process_youtube_url\<close>: \<open>result['success']\<close> and whether
  \<open>result.get('summaries', {})\<close> is truthy.
\<close>

record proc_result =
  p_success :: bool
  p_summaries :: bool

text \<open>
  The four places where a chat message is pushed: the completion notice (line 122),
  \<open>send_telegram_summaries\<close> (line 127), the handled-failure notice (line 131) and the
  notice of the exception handler (line 152).
\<close>

datatype site = SendDone | SendSummaries | SendError | SendException

text \<open>
  The three places where \<open>process_single_url\<close> calls \<open>log_func\<close>: after the job has
  been taken out and before the \<open>try\<close> (lines 110 to 112), in the body of the \<open>try\<close>
  after \<open>mark_completed\<close> (lines 136 to 142), and at the end of the handler (lines 154
  to 156).
\<close>

datatype log_site = LogStart | LogDone | LogException

text \<open>
  The collaborators of one call: the processing of the URL, the pushes and the logging
  callback, each of which returns or raises.  \<open>e_log\<close> is \<open>None\<close> when \<open>log_func\<close> is
  \<open>None\<close>; the worker loop passes \<open>log_mod.log\<close>, which prints.  The processing and
  the pushes are handed the same callback; what it does inside them is part of their
  outcome.
\<close>

record env =
  e_process :: "pystr \<Rightarrow> proc_result attempt"
  e_send :: "site \<Rightarrow> unit attempt"
  e_log :: "(log_site \<Rightarrow> unit attempt) option"

datatype event = Processed pystr | Sent site source | Marked pystr bool | Logged log_site

fun is_marked :: "event \<Rightarrow> bool" where
  "is_marked (Marked tid b) = True"
| "is_marked (Processed u) = False"
| "is_marked (Sent st src) = False"
| "is_marked (Logged ls) = False"

text \<open>\<open>if log_func: log_func(...)\<close>.\<close>

definition call_log :: "env \<Rightarrow> log_site \<Rightarrow> exn option \<times> event list" where
  "call_log ev ls =
     (case e_log ev of
        None \<Rightarrow> (None, [])
      | Some log_func \<Rightarrow>
          (case log_func ls of
             Raises e \<Rightarrow> (Some e, [Logged ls])
           | Returns u \<Rightarrow> (None, [Logged ls])))"

text \<open>Lines 119 to 131: the replies after processing has returned.\<close>

definition send_replies :: "env \<Rightarrow> UrlTask \<Rightarrow> proc_result \<Rightarrow> exn option \<times> event list" where
  "send_replies ev task res =
     (if p_success res then
        (case e_send ev SendDone of
           Raises e \<Rightarrow> (Some e, [Sent SendDone (source task)])
         | Returns u \<Rightarrow>
             (if p_summaries res then
                (case e_send ev SendSummaries of
                   Raises e \<Rightarrow>
                     (Some e, [Sent SendDone (source task), Sent SendSummaries (source task)])
                 | Returns u' \<Rightarrow>
                     (None, [Sent SendDone (source task), Sent SendSummaries (source task)]))
              else (None, [Sent SendDone (source task)])))
      else
        (case e_send ev SendError of
           Raises e \<Rightarrow> (Some e, [Sent SendError (source task)])
         | Returns u \<Rightarrow> (None, [Sent SendError (source task)])))"

text \<open>
  The body of the \<open>try\<close> (lines 115 to 144): it returns \<open>True\<close> or leaves with an
  exception.  The logging of lines 136 to 142 comes after \<open>mark_completed\<close>.
\<close>

definition try_block :: "env \<Rightarrow> UrlTask \<Rightarrow> UrlQueue \<Rightarrow> (exn + bool) \<times> UrlQueue \<times> event list" where
  "try_block ev task q =
     (case e_process ev (url task) of
        Raises e \<Rightarrow> (Inl e, q, [Processed (url task)])
      | Returns res \<Rightarrow>
          (case send_replies ev task res of
             (Some e, evs) \<Rightarrow> (Inl e, q, Processed (url task) # evs)
           | (None, evs) \<Rightarrow>
               (let (b, q') = mark_completed q (task_id task)
                in (case call_log ev LogDone of
                      (Some e, lg) \<Rightarrow>
                        (Inl e, q', Processed (url task) # evs @ [Marked (task_id task) b] @ lg)
                    | (None, lg) \<Rightarrow>
                        (Inr True, q',
                         Processed (url task) # evs @ [Marked (task_id task) b] @ lg)))))"

text \<open>
  The \<open>except Exception\<close> handler (lines 146 to 158).  An exception of the push or of
  the logging leaves the function.
\<close>

definition except_block :: "env \<Rightarrow> UrlTask \<Rightarrow> UrlQueue \<Rightarrow> (exn + bool) \<times> UrlQueue \<times> event list" where
  "except_block ev task q =
     (let (b, q') = mark_completed q (task_id task)
      in (case e_send ev SendException of
            Raises e \<Rightarrow> (Inl e, q', [Marked (task_id task) b, Sent SendException (source task)])
          | Returns u \<Rightarrow>
              (case call_log ev LogException of
                 (Some e, lg) \<Rightarrow>
                   (Inl e, q',
                    [Marked (task_id task) b, Sent SendException (source task)] @ lg)
               | (None, lg) \<Rightarrow>
                   (Inr True, q',
                    [Marked (task_id task) b, Sent SendException (source task)] @ lg))))"

text \<open>
  \<open>process_single_url\<close>.  The logging of lines 110 to 112 is outside the \<open>try\<close>: an
  exception there leaves the function at once.
\<close>

definition process_single_url :: "env \<Rightarrow> UrlQueue \<Rightarrow> (exn + bool) \<times> UrlQueue \<times> event list" where
  "process_single_url ev q =
     (case get_next_url q of
        (None, q1) \<Rightarrow> (Inr False, q1, [])
      | (Some task, q1) \<Rightarrow>
          (case call_log ev LogStart of
             (Some e, lg) \<Rightarrow> (Inl e, q1, lg)
           | (None, lg) \<Rightarrow>
               (case try_block ev task q1 of
                  (Inr r, q2, evs) \<Rightarrow> (Inr r, q2, lg @ evs)
                | (Inl e, q2, evs) \<Rightarrow>
                    (case except_block ev task q2 of
                       (r, q3, evs') \<Rightarrow> (r, q3, lg @ evs @ evs')))))"


section \<open>String operations of the standard library\<close>

text \<open>
  \<open>str.isspace\<close>: the code points Python treats as whitespace, which is what
  \<open>str.strip()\<close> without arguments removes.
\<close>

definition is_space :: "nat \<Rightarrow> bool" where
  "is_space c \<longleftrightarrow>
     (9 \<le> c \<and> c \<le> 13) \<or> (28 \<le> c \<and> c \<le> 32) \<or> c = 133 \<or> c = 160 \<or> c = 5760 \<or>
     (8192 \<le> c \<and> c \<le> 8202) \<or> c = 8232 \<or> c = 8233 \<or> c = 8239 \<or> c = 8287 \<or> c = 12288"

definition strip :: "pystr \<Rightarrow> pystr" where
  "strip s = rev (dropWhile is_space (rev (dropWhile is_space s)))"

definition startswith :: "pystr \<Rightarrow> pystr \<Rightarrow> bool" where
  "startswith s p \<longleftrightarrow> take (length p) s = p"

text \<open>\<open>needle in hay\<close> for strings.\<close>

fun py_in :: "pystr \<Rightarrow> pystr \<Rightarrow> bool" where
  "py_in needle [] = (needle = [])"
| "py_in needle (c # cs) = (startswith (c # cs) needle \<or> py_in needle cs)"

text \<open>\<open>s.rfind(c)\<close> for a single character: the last index of \<open>c\<close>, or \<open>-1\<close>.\<close>

definition rfind :: "pystr \<Rightarrow> nat \<Rightarrow> int" where
  "rfind s c =
     (case dropWhile (\<lambda>x. x \<noteq> c) (rev s) of
        [] \<Rightarrow> - 1
      | r # rs \<Rightarrow> int (length rs))"

text \<open>
  \<open>s.split(sep)\<close> for a single character: every occurrence separates, empty pieces
  are kept, and the result is never empty (the last case cannot occur).
\<close>

fun split_on :: "nat \<Rightarrow> pystr \<Rightarrow> pystr list" where
  "split_on sep [] = [[]]"
| "split_on sep (c # cs) =
     (if c = sep then [] # split_on sep cs
      else (case split_on sep cs of
              p # ps \<Rightarrow> (c # p) # ps
            | [] \<Rightarrow> [[c]]))"

text \<open>\<open>sep.join(xs)\<close>.\<close>

fun join :: "pystr \<Rightarrow> pystr list \<Rightarrow> pystr" where
  "join sep [] = []"
| "join sep [x] = x"
| "join sep (x # y # ys) = x @ sep @ join sep (y # ys)"

text \<open>
  \<open>re.split(r'[.!?]+', s)\<close>: the pieces between maximal runs of sentence-terminal
  marks; a run at the start or at the end leaves an empty piece there.
\<close>

definition is_mark :: "nat \<Rightarrow> bool" where
  "is_mark c \<longleftrightarrow> c = 46 \<or> c = 33 \<or> c = 63"

function re_split_marks :: "pystr \<Rightarrow> pystr list" where
  "re_split_marks [] = [[]]"
| "re_split_marks (c # cs) =
     (if is_mark c then [] # re_split_marks (dropWhile is_mark cs)
      else (case re_split_marks cs of
              p # ps \<Rightarrow> (c # p) # ps
            | [] \<Rightarrow> [[c]]))"
  by pat_completeness auto
termination
  by (relation "measure length") (auto simp: less_Suc_eq_le length_dropWhile_le)

text \<open>
  \<open>re.search(r'\{.*\}', s, re.DOTALL)\<close>: the match, when there is one, runs from the
  first opening brace to the last closing brace after it.
\<close>

definition brace_search :: "pystr \<Rightarrow> pystr option" where
  "brace_search s =
     (case dropWhile (\<lambda>c. c \<noteq> 123) s of
        [] \<Rightarrow> None
      | b # body \<Rightarrow>
          (case dropWhile (\<lambda>c. c \<noteq> 125) (rev body) of
             [] \<Rightarrow> None
           | r # rs \<Rightarrow> Some (b # rev (r # rs))))"

text \<open>
  Python slicing \<open>xs[:n]\<close>: a negative \<open>n\<close> counts from the end.
\<close>

definition slice_to :: "int \<Rightarrow> 'a list \<Rightarrow> 'a list" where
  "slice_to n xs = (if 0 \<le> n then take (nat n) xs else take (length xs - nat (- n)) xs)"

section \<open>The language-model collaborator and JSON values\<close>

text \<open>The \<open>{"code": ..., "detail": ...}\<close> dictionary of a failure.\<close>

record err =
  e_code :: pystr
  e_detail :: pystr

text \<open>
  The fields of the dictionary of \<open>ai_mod.call_model\<close> that the pipeline reads.  The
  collaborator is a function of the prompt id and the input text; every function of the
  pipeline also returns the list of the calls it made, in order.
\<close>

record call_result =
  cr_ok :: bool
  cr_text :: pystr
  cr_error :: "err option"

type_synonym model = "int \<Rightarrow> pystr \<Rightarrow> call_result"

type_synonym calls = "(int \<times> pystr) list"

text \<open>\<open>config['ai']['prompts_map']\<close>, with the default of each reader.\<close>

type_synonym config = "pystr \<rightharpoonup> int"

definition prompt_id :: "config \<Rightarrow> pystr \<Rightarrow> int \<Rightarrow> int" where
  "prompt_id cfg k d = (case cfg k of Some i \<Rightarrow> i | None \<Rightarrow> d)"

text \<open>
  What \<open>json.loads\<close> builds.  \<open>JNull\<close> is Python's \<open>None\<close>.  A float is kept as the
  number it denotes: the pipeline only tests it against zero.
\<close>

datatype json =
    JNull
  | JBool bool
  | JInt int
  | JFloat real
  | JStr pystr
  | JList "json list"
  | JDict "(pystr \<times> json) list"

text \<open>
  \<open>json.loads\<close> and \<open>str\<close> on a decoded value belong to the standard library and are
  parameters: \<open>loads s\<close> is \<open>Inl\<close> of the text of the \<open>JSONDecodeError\<close>, or the
  value.  The other exceptions of \<open>json.loads\<close> (a \<open>RecursionError\<close> on extreme
  nesting) are not represented.
\<close>

type_synonym loader = "pystr \<Rightarrow> pystr + json"

definition try_parse_json :: "loader \<Rightarrow> pystr \<Rightarrow> json \<times> pystr option" where
  "try_parse_json loads t =
     (case loads t of
        Inr v \<Rightarrow> (v, None)
      | Inl m \<Rightarrow> (JNull, Some m))"

text \<open>\<open>d.get(k, default)\<close>; on anything but a dictionary there is no \<open>get\<close>.\<close>

fun type_name :: "json \<Rightarrow> pystr" where
  "type_name JNull = py ''NoneType''"
| "type_name (JBool b) = py ''bool''"
| "type_name (JInt i) = py ''int''"
| "type_name (JFloat f) = py ''float''"
| "type_name (JStr s) = py ''str''"
| "type_name (JList xs) = py ''list''"
| "type_name (JDict kvs) = py ''dict''"

definition json_get :: "json \<Rightarrow> pystr \<Rightarrow> json \<Rightarrow> exn + json" where
  "json_get v k d =
     (case v of
        JDict kvs \<Rightarrow> Inr (case map_of kvs k of Some x \<Rightarrow> x | None \<Rightarrow> d)
      | _ \<Rightarrow> Inl (AttributeError
                 ([39] @ type_name v @ [39] @ py '' object has no attribute '' @
                  [39] @ py ''get'' @ [39])))"


section \<open>The pipeline stages (\<open>ai_pipeline.py\<close>)\<close>

subsection \<open>\<open>run_clean\<close>\<close>

record clean_result =
  rc_clean :: pystr
  rc_links :: "pystr list"
  rc_raw :: pystr
  rc_error :: "err option"

definition clarification_prompt :: pystr where
  "clarification_prompt =
     [1042, 1077, 1088, 1085, 1080, 32, 74, 83, 79, 78, 32, 1089, 1090, 1088, 1086, 1075,
      1086, 32, 1074, 32, 1092, 1086, 1088, 1084, 1072, 1090, 1077, 58, 32, 123, 34, 99,
      108, 101, 97, 110, 34, 58, 34, 1090, 1077, 1082, 1089, 1090, 34, 44, 34, 108, 105,
      110, 107, 115, 34, 58, 91, 34, 117, 114, 108, 49, 34, 44, 34, 117, 114, 108, 50, 34,
      93, 125]"

text \<open>
  Lines 44 to 51, and again lines 60 to 67: parse the text; when that gives \<open>None\<close>,
  look for a brace-delimited substring and parse that.
\<close>

definition parse_with_repair :: "loader \<Rightarrow> pystr \<Rightarrow> json \<times> pystr option" where
  "parse_with_repair loads t =
     (let (parsed, perr) = try_parse_json loads t
      in if parsed = JNull then
           (case brace_search t of
              Some m \<Rightarrow> try_parse_json loads m
            | None \<Rightarrow> (parsed, perr))
         else (parsed, perr))"

text \<open>Lines 89 to 94: only strings that start with a URL scheme are kept.\<close>

fun link_of :: "json \<Rightarrow> pystr option" where
  "link_of (JStr s) =
     (if startswith s (py ''http://'') \<or> startswith s (py ''https://'') then Some s else None)"
| "link_of v = None"

definition valid_links :: "json list \<Rightarrow> pystr list" where
  "valid_links ls = List.map_filter link_of ls"

text \<open>The f-string \<open>f"JSON parse error: {parse_error}"\<close>.\<close>

definition parse_error_detail :: "pystr option \<Rightarrow> pystr" where
  "parse_error_detail perr =
     py ''JSON parse error: '' @ (case perr of Some m \<Rightarrow> m | None \<Rightarrow> py ''None'')"

text \<open>Lines 69 to 103: the result built from what was parsed.\<close>

definition finish_clean ::
  "(json \<Rightarrow> pystr) \<Rightarrow> pystr \<Rightarrow> json \<Rightarrow> pystr option \<Rightarrow> exn + clean_result" where
  "finish_clean py_str raw parsed perr =
     (if parsed = JNull then
        Inr \<lparr>rc_clean = [], rc_links = [], rc_raw = raw,
             rc_error = Some \<lparr>e_code = py ''invalid_json'',
                               e_detail = parse_error_detail perr\<rparr>\<rparr>
      else
        (case json_get parsed (py ''clean'') (JStr []) of
           Inl e \<Rightarrow> Inl e
         | Inr clean_v \<Rightarrow>
             (case json_get parsed (py ''links'') (JList []) of
                Inl e \<Rightarrow> Inl e
              | Inr links_v \<Rightarrow>
                  Inr \<lparr>rc_clean = (case clean_v of JStr s \<Rightarrow> s | _ \<Rightarrow> py_str clean_v),
                       rc_links = (case links_v of JList ls \<Rightarrow> valid_links ls | _ \<Rightarrow> []),
                       rc_raw = raw, rc_error = None\<rparr>)))"

definition run_clean ::
  "loader \<Rightarrow> (json \<Rightarrow> pystr) \<Rightarrow> model \<Rightarrow> config \<Rightarrow> pystr \<Rightarrow> (exn + clean_result) \<times> calls" where
  "run_clean loads py_str call_model cfg transcript_text =
     (let pid = prompt_id cfg (py ''CLEAN'') 1;
          result = call_model pid transcript_text
      in if \<not> cr_ok result then
           (Inr \<lparr>rc_clean = [], rc_links = [], rc_raw = [], rc_error = cr_error result\<rparr>,
            [(pid, transcript_text)])
         else
           (let raw_response = cr_text result;
                (parsed, perr) = parse_with_repair loads raw_response
            in if parsed = JNull then
                 (let retry_input = transcript_text @ [10, 10] @ clarification_prompt;
                      retry_result = call_model pid retry_input;
                      (parsed', perr') =
                        (if cr_ok retry_result
                         then parse_with_repair loads (cr_text retry_result)
                         else (parsed, perr))
                  in (finish_clean py_str raw_response parsed' perr',
                      [(pid, transcript_text), (pid, retry_input)]))
               else
                 (finish_clean py_str raw_response parsed perr, [(pid, transcript_text)])))"

text \<open>
  A response that is not parseable JSON, also after the repair: \<open>json.loads\<close> raises on
  the text, and raises on the brace-delimited substring when there is one.
\<close>

definition unparseable :: "loader \<Rightarrow> pystr \<Rightarrow> bool" where
  "unparseable loads t \<longleftrightarrow>
     isl (loads t) \<and> (case brace_search t of None \<Rightarrow> True | Some m \<Rightarrow> isl (loads m))"

text \<open>A string that passes the filter of lines 89 to 94.\<close>

definition is_url :: "pystr \<Rightarrow> bool" where
  "is_url l \<longleftrightarrow> startswith l (py ''http://'') \<or> startswith l (py ''https://'')"

subsection \<open>\<open>run_middle_10\<close>\<close>

text \<open>Lines 146 and 147: the non-blank pieces between runs of marks, stripped.\<close>

definition sentences :: "pystr \<Rightarrow> pystr list" where
  "sentences t = [strip s. s \<leftarrow> re_split_marks t, strip s \<noteq> []]"

definition run_middle_10 :: "model \<Rightarrow> config \<Rightarrow> pystr \<Rightarrow> pystr \<times> calls" where
  "run_middle_10 call_model cfg clean_text =
     (let pid = prompt_id cfg (py ''MIDDLE_10'') 3;
          result = call_model pid clean_text
      in if \<not> cr_ok result then ([], [(pid, clean_text)])
         else
           (let middle_text = strip (cr_text result);
                ss = sentences middle_text
            in if length ss > 10
               then (join (py ''. '') (take 10 ss) @ py ''.'', [(pid, clean_text)])
               else (middle_text, [(pid, clean_text)])))"

subsection \<open>\<open>run_short_300\<close>\<close>

text \<open>Lines 181 to 192: the cut applied to the stripped response.\<close>

definition cut_300 :: "pystr \<Rightarrow> pystr" where
  "cut_300 short_text =
     (if length short_text > 300 then
        (let truncated_text = take 300 short_text;
             last_space = rfind truncated_text 32
         in if last_space > 250 then take (nat last_space) truncated_text
            else truncated_text)
      else short_text)"

definition run_short_300 :: "model \<Rightarrow> config \<Rightarrow> pystr \<Rightarrow> pystr \<times> calls" where
  "run_short_300 call_model cfg clean_text =
     (let pid = prompt_id cfg (py ''SHORT_300'') 4;
          result = call_model pid clean_text
      in if \<not> cr_ok result then ([], [(pid, clean_text)])
         else (cut_300 (strip (cr_text result)), [(pid, clean_text)]))"

subsection \<open>\<open>run_resources\<close>\<close>

text \<open>
  A Python \<open>set\<close> of strings is kept as a list without repetitions; \<open>set_add\<close> is
  \<open>set.add\<close>.  The order in which \<open>list(all_resources)\<close> enumerates the set is not
  fixed by Python; here it is the order of insertion.
\<close>

definition set_add :: "pystr list \<Rightarrow> pystr \<Rightarrow> pystr list" where
  "set_add xs x = (if x \<in> set xs then xs else xs @ [x])"

text \<open>Lines 209 to 211.  The links are strings, so \<open>isinstance(link, str)\<close> holds.\<close>

definition add_links :: "pystr list \<Rightarrow> pystr list \<Rightarrow> pystr list" where
  "add_links acc links = foldl (\<lambda>a link. if strip link \<noteq> [] then set_add a (strip link) else a) acc links"

text \<open>Lines 223 to 226.\<close>

definition add_lines :: "pystr list \<Rightarrow> pystr list \<Rightarrow> pystr list" where
  "add_lines acc ls =
     foldl (\<lambda>a l. let line = strip l
                  in if line \<noteq> [] \<and> (startswith line (py ''http'') \<or> py_in (py ''://'') line)
                     then set_add a line else a) acc ls"

definition run_resources :: "model \<Rightarrow> config \<Rightarrow> pystr \<Rightarrow> pystr list \<Rightarrow> pystr list \<times> calls" where
  "run_resources call_model cfg clean_text links_from_clean =
     (let all_resources = add_links [] links_from_clean
      in if all_resources = [] then
           (let pid = prompt_id cfg (py ''RESOURCES'') 5;
                result = call_model pid clean_text
            in if cr_ok result
               then (add_lines all_resources (split_on 10 (strip (cr_text result))),
                     [(pid, clean_text)])
               else (all_resources, [(pid, clean_text)]))
         else (all_resources, []))"

section \<open>Retrying on a transient error (\<open>ai_chat.retry_on_503\<close>)\<close>

text \<open>
  \<open>str.lower\<close>, on the ASCII letters.  Python also lower-cases letters outside ASCII;
  none of them becomes a character of the ASCII texts \<open>is_503_error\<close> looks for in a
  way that completes one of those texts, so the test below is not affected.
\<close>

definition lower :: "pystr \<Rightarrow> pystr" where
  "lower s = map (\<lambda>c. if 65 \<le> c \<and> c \<le> 90 then c + 32 else c) s"

definition is_503_error :: "exn \<Rightarrow> bool" where
  "is_503_error e =
     (let error_str = lower (exn_str e)
      in py_in (py ''503'') error_str \<and>
         (py_in (py ''unavailable'') error_str \<or> py_in (py ''overloaded'') error_str \<or>
          py_in (py ''try again later'') error_str))"

text \<open>
  The function that is retried is given by what its successive invocations do:
  \<open>func k\<close> is the outcome of invocation number \<open>k\<close>, counted from 0.  A run returns
  the outcome, the number of invocations made and the delays slept, in milliseconds.
  \<open>time.sleep\<close> raises \<open>ValueError\<close> on a negative delay.
\<close>

fun retry_loop ::
  "(nat \<Rightarrow> exn + 'a) \<Rightarrow> nat \<Rightarrow> int list \<Rightarrow> exn \<Rightarrow> int list \<Rightarrow> (exn + 'a) \<times> nat \<times> int list" where
  "retry_loop func k [] last_error slept = (Inl last_error, k, slept)"
| "retry_loop func k (delay_ms # rest) last_error slept =
     (if delay_ms < 0 then
        (Inl (ValueError (py ''sleep length must be non-negative'')), k, slept)
      else
        (case func k of
           Inr v \<Rightarrow> (Inr v, Suc k, slept @ [delay_ms])
         | Inl e \<Rightarrow>
             (if \<not> is_503_error e then (Inl e, Suc k, slept @ [delay_ms])
              else retry_loop func (Suc k) rest e (slept @ [delay_ms]))))"

definition retry_on_503 ::
  "(nat \<Rightarrow> exn + 'a) \<Rightarrow> int \<Rightarrow> int list \<Rightarrow> (exn + 'a) \<times> nat \<times> int list" where
  "retry_on_503 func max_retries backoff_ms =
     (case func 0 of
        Inr v \<Rightarrow> (Inr v, 1, [])
      | Inl e \<Rightarrow>
          (if \<not> is_503_error e then (Inl e, 1, [])
           else retry_loop func 1 (slice_to max_retries backoff_ms) e []))"

text \<open>
  The outcomes of an invocation that \<open>retry_on_503\<close> answers with another attempt: an
  exception that \<open>is_503_error\<close> accepts.
\<close>

definition transient :: "exn + 'a \<Rightarrow> bool" where
  "transient outcome = (case outcome of Inl e \<Rightarrow> is_503_error e | Inr v \<Rightarrow> False)"

section \<open>The chat pipeline (\<open>ai_chat.process_transcript_chat\<close>)\<close>

text \<open>
  \<open>process_transcript_chat\<close> sends five independent requests (cleaning, full, middle
  and short summary, resources) and parses each response itself.  Its collaborators are
  parameters: \<open>json.loads\<close> and \<open>str\<close> as before, the client returned by
  \<open>init_chat_client\<close> (\<open>None\<close> when there is none) and the dictionary returned by
  \<open>load_prompts_from_notion\<close>, as the list of its items.  The \<open>performance\<close> entry
  of the result and the logging are left out: \<open>log\<close> is taken to return at every call,
  and of its arguments only those whose evaluation can raise are kept.  The texts of the
  exceptions of built-in operations are those of CPython 3.11.
\<close>

subsection \<open>Built-in operations on decoded values\<close>

text \<open>The truth value of a decoded value, as \<open>if v\<close> and \<open>not v\<close> take it.\<close>

fun truthy :: "json \<Rightarrow> bool" where
  "truthy JNull = False"
| "truthy (JBool b) = b"
| "truthy (JInt i) = (i \<noteq> 0)"
| "truthy (JFloat f) = (f \<noteq> 0)"
| "truthy (JStr s) = (s \<noteq> [])"
| "truthy (JList xs) = (xs \<noteq> [])"
| "truthy (JDict kvs) = (kvs \<noteq> [])"

text \<open>A value inside an f-string: a string as it is, anything else through \<open>str\<close>.\<close>

definition fstr :: "(json \<Rightarrow> pystr) \<Rightarrow> json \<Rightarrow> pystr" where
  "fstr py_str v = (case v of JStr s \<Rightarrow> s | _ \<Rightarrow> py_str v)"

text \<open>\<open>len(v)\<close>.\<close>

definition py_len :: "json \<Rightarrow> exn + nat" where
  "py_len v =
     (case v of
        JStr s \<Rightarrow> Inr (length s)
      | JList xs \<Rightarrow> Inr (length xs)
      | JDict kvs \<Rightarrow> Inr (length kvs)
      | _ \<Rightarrow> Inl (TypeError (py ''object of type '' @ [39] @ type_name v @ [39] @
                               py '' has no len()'')))"

text \<open>Iterating over a value: a string gives its characters, a dictionary its keys.\<close>

definition iter_json :: "json \<Rightarrow> exn + json list" where
  "iter_json v =
     (case v of
        JList xs \<Rightarrow> Inr xs
      | JStr s \<Rightarrow> Inr (map (\<lambda>c. JStr [c]) s)
      | JDict kvs \<Rightarrow> Inr (map (\<lambda>kv. JStr (fst kv)) kvs)
      | _ \<Rightarrow> Inl (TypeError ([39] @ type_name v @ [39] @ py '' object is not iterable'')))"

text \<open>
  \<open>s.replace(old, new)\<close>: the occurrences of \<open>old\<close> are replaced from the left, without
  overlap; an empty \<open>old\<close> matches before every character and at the end.
\<close>

function py_replace :: "pystr \<Rightarrow> pystr \<Rightarrow> pystr \<Rightarrow> pystr" where
  "py_replace old new [] = (if old = [] then new else [])"
| "py_replace old new (c # cs) =
     (if old = [] then new @ c # py_replace old new cs
      else if startswith (c # cs) old then new @ py_replace old new (drop (length old) (c # cs))
      else c # py_replace old new cs)"
  by pat_completeness auto
termination
  by (relation "measure (\<lambda>(old, new, s). length s)") auto

text \<open>
  \<open>s.replace(old, v)\<close> with a decoded value as the replacement: anything but a string is
  a \<open>TypeError\<close>, whether or not \<open>old\<close> occurs.
\<close>

definition replace_with :: "pystr \<Rightarrow> pystr \<Rightarrow> json \<Rightarrow> exn + pystr" where
  "replace_with s old v =
     (case v of
        JStr new \<Rightarrow> Inr (py_replace old new s)
      | JNull \<Rightarrow> Inl (TypeError (py ''replace() argument 2 must be str, not None''))
      | _ \<Rightarrow> Inl (TypeError (py ''replace() argument 2 must be str, not '' @ type_name v)))"

subsection \<open>The client and the prompts\<close>

text \<open>
  \<open>client n prompt\<close> is the outcome of sending \<open>prompt\<close> in a new chat when \<open>n\<close>
  messages have been sent before: an exception, or a response with its \<open>text\<close>, which
  may be \<open>None\<close>.  The messages sent are recorded in order, one entry for every attempt.
\<close>

type_synonym client = "nat \<Rightarrow> pystr \<Rightarrow> exn + pystr option"

text \<open>\<open>response.text.strip()\<close>.\<close>

definition response_text :: "pystr option \<Rightarrow> exn + pystr" where
  "response_text t =
     (case t of
        None \<Rightarrow> Inl (AttributeError ([39] @ py ''NoneType'' @ [39] @
                        py '' object has no attribute '' @ [39] @ py ''strip'' @ [39]))
      | Some s \<Rightarrow> Inr (strip s))"

text \<open>
  One request: \<open>retry_on_503(make_request, max_retries, backoff_ms, log)\<close> followed by
  \<open>response.text.strip()\<close>.
\<close>

definition request ::
  "client \<Rightarrow> int \<Rightarrow> int list \<Rightarrow> pystr list \<Rightarrow> pystr \<Rightarrow> (exn + pystr) \<times> pystr list" where
  "request cl max_retries backoff_ms sent prompt =
     (case retry_on_503 (\<lambda>k. cl (length sent + k) prompt) max_retries backoff_ms of
        (outcome, n, slept) \<Rightarrow>
          ((case outcome of Inl e \<Rightarrow> Inl e | Inr response \<Rightarrow> response_text response),
           sent @ replicate n prompt))"

text \<open>
  \<open>prompts.get(name, '')\<close>, with the built-in template when the prompt is missing or
  empty.
\<close>

definition template :: "(pystr \<times> pystr) list \<Rightarrow> pystr \<Rightarrow> pystr \<Rightarrow> pystr" where
  "template prompts name fallback =
     (case map_of prompts name of
        None \<Rightarrow> fallback
      | Some t \<Rightarrow> if t = [] then fallback else t)"

text \<open>The built-in templates of lines 211, 255, 275, 319 and 354.\<close>

definition fallback_clean :: pystr where
  "fallback_clean =
     [1054, 1095, 1080, 1089, 1090, 1080, 32, 1090, 1088, 1072, 1085, 1089, 1082, 1088,
      1080, 1087, 1090, 32, 1086, 1090, 32, 1088, 1077, 1082, 1083, 1072, 1084, 1099, 44,
      32, 1089, 1087, 1086, 1085, 1089, 1086, 1088, 1089, 1082, 1080, 1093, 32, 1074,
      1089, 1090, 1072, 1074, 1086, 1082, 44, 32, 67, 84, 65, 46, 32, 1042, 1077, 1088,
      1085, 1080, 32, 74, 83, 79, 78, 58, 32, 123, 123, 34, 99, 108, 101, 97, 110, 34, 58,
      34, 1090, 1077, 1082, 1089, 1090, 34, 44, 32, 34, 108, 105, 110, 107, 115, 34, 58,
      91, 34, 1089, 1089, 1099, 1083, 1082, 1080, 34, 93, 125, 125, 46, 32, 1058, 1088,
      1072, 1085, 1089, 1082, 1088, 1080, 1087, 1090, 58, 32, 60, 60, 60, 116, 114, 97,
      110, 115, 99, 114, 105, 112, 116, 62, 62, 62]"

definition fallback_full :: pystr where
  "fallback_full =
     [1055, 1086, 32, 1095, 1080, 1089, 1090, 1086, 1084, 1091, 32, 1090, 1077, 1082,
      1089, 1090, 1091, 32, 1076, 1072, 1081, 32, 1084, 1072, 1082, 1089, 1080, 1084,
      1072, 1083, 1100, 1085, 1086, 32, 1087, 1086, 1083, 1077, 1079, 1085, 1086, 1077,
      32, 1055, 1054, 1051, 1053, 1054, 1045, 32, 1089, 1072, 1084, 1084, 1072, 1088,
      1080, 46, 32, 1058, 1077, 1082, 1089, 1090, 58, 32, 60, 60, 60, 99, 108, 101, 97,
      110, 95, 116, 101, 120, 116, 62, 62, 62]"

definition fallback_middle :: pystr where
  "fallback_middle =
     [1057, 1091, 1084, 1084, 1072, 1088, 1080, 1079, 1080, 1088, 1091, 1081, 32, 1095,
      1080, 1089, 1090, 1099, 1081, 32, 1090, 1077, 1082, 1089, 1090, 32, 1076, 1086, 32,
      56, 48, 48, 32, 1089, 1080, 1084, 1074, 1086, 1083, 1086, 1074, 46, 32, 1058, 1077,
      1082, 1089, 1090, 58, 32, 60, 60, 60, 99, 108, 101, 97, 110, 95, 116, 101, 120, 116,
      62, 62, 62]"

definition fallback_short :: pystr where
  "fallback_short =
     [1050, 1086, 1088, 1086, 1090, 1082, 1086, 1077, 32, 1089, 1072, 1084, 1084, 1072,
      1088, 1080, 32, 1076, 1086, 32, 51, 48, 48, 32, 1089, 1080, 1084, 1074, 1086, 1083,
      1086, 1074, 46, 32, 1058, 1077, 1082, 1089, 1090, 58, 32, 60, 60, 60, 99, 108, 101,
      97, 110, 95, 116, 101, 120, 116, 62, 62, 62]"

definition fallback_resources :: pystr where
  "fallback_resources =
     [1055, 1086, 32, 1095, 1080, 1089, 1090, 1086, 1084, 1091, 32, 1090, 1077, 1082,
      1089, 1090, 1091, 32, 1074, 1099, 1076, 1072, 1081, 32, 1089, 1087, 1080, 1089,
      1086, 1082, 32, 1091, 1087, 1086, 1084, 1103, 1085, 1091, 1090, 1099, 1093, 32,
      1088, 1077, 1089, 1091, 1088, 1089, 1086, 1074, 47, 1089, 1089, 1099, 1083, 1086,
      1082, 46, 32, 1058, 1077, 1082, 1089, 1090, 58, 32, 60, 60, 60, 99, 108, 101, 97,
      110, 95, 116, 101, 120, 116, 62, 62, 62]"

subsection \<open>The result\<close>

record chat_result =
  pr_clean_text :: json
  pr_links :: json
  pr_full_summary :: pystr
  pr_middle_summary :: json
  pr_short_summary :: pystr
  pr_resources :: "pystr list"
  pr_error :: "err option"

text \<open>The dictionary returned on a failure: every output empty, and the error.\<close>

definition error_result :: "pystr \<Rightarrow> pystr \<Rightarrow> chat_result" where
  "error_result code detail =
     \<lparr>pr_clean_text = JStr [], pr_links = JList [], pr_full_summary = [],
      pr_middle_summary = JStr [], pr_short_summary = [], pr_resources = [],
      pr_error = Some \<lparr>e_code = code, e_detail = detail\<rparr>\<rparr>"

definition no_client_detail :: pystr where
  "no_client_detail =
     [1053, 1077, 32, 1091, 1076, 1072, 1083, 1086, 1089, 1100, 32, 1080, 1085, 1080,
      1094, 1080, 1072, 1083, 1080, 1079, 1080, 1088, 1086, 1074, 1072, 1090, 1100, 32,
      65, 73, 32, 1082, 1083, 1080, 1077, 1085, 1090]"

definition no_prompts_detail :: pystr where
  "no_prompts_detail =
     [1053, 1077, 32, 1091, 1076, 1072, 1083, 1086, 1089, 1100, 32, 1079, 1072, 1075,
      1088, 1091, 1079, 1080, 1090, 1100, 32, 1087, 1088, 1086, 1084, 1090, 1099, 32,
      1080, 1079, 32, 78, 111, 116, 105, 111, 110]"

subsection \<open>Parsing the responses\<close>

text \<open>
  Lines 229 to 239: the cleaning response is decoded; failing that, its brace-delimited
  substring; failing that, it counts as an empty cleaning result.
\<close>

definition chat_clean_data :: "loader \<Rightarrow> pystr \<Rightarrow> json" where
  "chat_clean_data loads clean_response =
     (case loads clean_response of
        Inr v \<Rightarrow> v
      | Inl m \<Rightarrow>
          (case brace_search clean_response of
             Some t \<Rightarrow>
               (case loads t of
                  Inr v \<Rightarrow> v
                | Inl m' \<Rightarrow> JDict [(py ''clean'', JStr []), (py ''links'', JList [])])
           | None \<Rightarrow> JDict [(py ''clean'', JStr []), (py ''links'', JList [])]))"

text \<open>Lines 290 to 305: the middle summary, from JSON or as plain text.\<close>

definition chat_middle_text :: "loader \<Rightarrow> pystr \<Rightarrow> exn + json" where
  "chat_middle_text loads middle_response =
     (case loads middle_response of
        Inr middle_data \<Rightarrow> json_get middle_data (py ''middle_800'') (JStr middle_response)
      | Inl m \<Rightarrow>
          (case brace_search middle_response of
             Some t \<Rightarrow>
               (case loads t of
                  Inr middle_data \<Rightarrow>
                    json_get middle_data (py ''middle_800'') (JStr middle_response)
                | Inl m' \<Rightarrow> Inr (JStr middle_response))
           | None \<Rightarrow> Inr (JStr middle_response)))"

text \<open>
  Lines 308 to 309: the limit of 800.  \<open>middle_text[:797] + "..."\<close> is defined on a
  string only.
\<close>

definition chat_middle_cap :: "json \<Rightarrow> exn + json" where
  "chat_middle_cap middle_text =
     (case py_len middle_text of
        Inl e \<Rightarrow> Inl e
      | Inr n \<Rightarrow>
          (if n > 800 then
             (case middle_text of
                JStr s \<Rightarrow> Inr (JStr (take 797 s @ py ''...''))
              | JList xs \<Rightarrow>
                  Inl (TypeError (py ''can only concatenate list (not '' @ [34] @ py ''str'' @
                                  [34] @ py '') to list''))
              | _ \<Rightarrow> Inl (TypeError (py ''unhashable type: '' @ [39] @ py ''slice'' @ [39])))
           else Inr middle_text))"

text \<open>Lines 339 to 348: the short summary is the second non-blank line, when there is one.\<close>

definition chat_short :: "pystr \<Rightarrow> pystr" where
  "chat_short short_response =
     (let lines = filter (\<lambda>line. line \<noteq> []) (map strip (split_on 10 short_response))
      in if length lines \<ge> 2 then
           (let short_summary = lines ! 1
            in if length short_summary > 300 then take 297 short_summary @ py ''...''
               else short_summary)
         else take 300 short_response)"

text \<open>
  Line 357: \<open>', '.join(results['links']) if results['links'] else ...\<close>.  The text is
  not used afterwards, but the join raises on anything that is not an iterable of
  strings.
\<close>

fun first_non_str :: "nat \<Rightarrow> json list \<Rightarrow> (nat \<times> json) option" where
  "first_non_str i [] = None"
| "first_non_str i (JStr s # vs) = first_non_str (Suc i) vs"
| "first_non_str i (v # vs) = Some (i, v)"

fun str_items :: "json list \<Rightarrow> pystr list" where
  "str_items [] = []"
| "str_items (JStr s # vs) = s # str_items vs"
| "str_items (v # vs) = str_items vs"

definition links_str :: "json \<Rightarrow> exn + pystr" where
  "links_str links =
     (if \<not> truthy links then Inr [1085, 1077, 1090]
      else
        (case iter_json links of
           Inl e \<Rightarrow> Inl (TypeError (py ''can only join an iterable''))
         | Inr vs \<Rightarrow>
             (case first_non_str 0 vs of
                Some (i, v) \<Rightarrow>
                  Inl (TypeError (py ''sequence item '' @ str_int (int i) @
                                  py '': expected str instance, '' @ type_name v @
                                  py '' found''))
              | None \<Rightarrow> Inr (join (py '', '') (str_items vs)))))"

text \<open>
  Lines 377 to 389, and again 397 to 408: one line for every entry of
  \<open>resources_real_world\<close>, numbered from 1.
\<close>

definition resource_str :: "(json \<Rightarrow> pystr) \<Rightarrow> nat \<Rightarrow> json \<Rightarrow> exn + pystr" where
  "resource_str py_str i resource =
     (case json_get resource (py ''name'')
             (JStr ([1056, 1077, 1089, 1091, 1088, 1089, 32] @ str_int (int i))) of
        Inl e \<Rightarrow> Inl e
      | Inr name \<Rightarrow>
          (case json_get resource (py ''access_real'') (JStr (py ''unknown'')) of
             Inl e \<Rightarrow> Inl e
           | Inr access \<Rightarrow>
               (case json_get resource (py ''notes'') (JStr []) of
                  Inl e \<Rightarrow> Inl e
                | Inr notes \<Rightarrow>
                    Inr (str_int (int i) @ py ''. '' @ fstr py_str name @ py '' - '' @
                         fstr py_str access @
                         (if truthy notes then py '' - '' @ fstr py_str notes else [])))))"

fun resource_strs :: "(json \<Rightarrow> pystr) \<Rightarrow> nat \<Rightarrow> json list \<Rightarrow> exn + pystr list" where
  "resource_strs py_str i [] = Inr []"
| "resource_strs py_str i (resource # rest) =
     (case resource_str py_str i resource of
        Inl e \<Rightarrow> Inl e
      | Inr s \<Rightarrow>
          (case resource_strs py_str (Suc i) rest of
             Inl e \<Rightarrow> Inl e
           | Inr ss \<Rightarrow> Inr (s # ss)))"

definition resources_from_json :: "(json \<Rightarrow> pystr) \<Rightarrow> json \<Rightarrow> exn + pystr list" where
  "resources_from_json py_str resources_data =
     (case json_get resources_data (py ''resources_real_world'') (JList []) of
        Inl e \<Rightarrow> Inl e
      | Inr real_world_resources \<Rightarrow>
          (case iter_json real_world_resources of
             Inl e \<Rightarrow> Inl e
           | Inr rs \<Rightarrow> resource_strs py_str 1 rs))"

text \<open>
  Lines 412 to 416, and again 419 to 423: the response as plain text, one resource for
  every line that, stripped, is longer than 5 characters and does not start with \<open>#\<close>.
  Every such line is appended.
\<close>

definition resource_lines :: "pystr \<Rightarrow> pystr list" where
  "resource_lines resources_response =
     filter (\<lambda>line. line \<noteq> [] \<and> \<not> startswith line [35] \<and> length line > 5)
       (map strip (split_on 10 resources_response))"

definition chat_resources :: "loader \<Rightarrow> (json \<Rightarrow> pystr) \<Rightarrow> pystr \<Rightarrow> exn + pystr list" where
  "chat_resources loads py_str resources_response =
     (case loads resources_response of
        Inr resources_data \<Rightarrow> resources_from_json py_str resources_data
      | Inl m \<Rightarrow>
          (case brace_search resources_response of
             Some t \<Rightarrow>
               (case loads t of
                  Inr resources_data \<Rightarrow> resources_from_json py_str resources_data
                | Inl m' \<Rightarrow> Inr (resource_lines resources_response))
           | None \<Rightarrow> Inr (resource_lines resources_response)))"

subsection \<open>The five requests\<close>

text \<open>
  The body of the \<open>try\<close> from each request on, last request first.  Every function
  returns the result or the exception that leaves the \<open>try\<close>, and the messages sent.
\<close>

text \<open>
  Lines 431 to 438: the arguments of the closing \<open>log\<close> call take \<open>len\<close> of the clean
  text and of the links.
\<close>

definition chat_finish ::
  "json \<Rightarrow> json \<Rightarrow> pystr \<Rightarrow> json \<Rightarrow> pystr \<Rightarrow> pystr list \<Rightarrow> exn + chat_result" where
  "chat_finish clean_text links full_summary middle_summary short_summary resources =
     (case py_len clean_text of
        Inl e \<Rightarrow> Inl e
      | Inr clean_len \<Rightarrow>
          (case py_len links of
             Inl e \<Rightarrow> Inl e
           | Inr links_count \<Rightarrow>
               Inr \<lparr>pr_clean_text = clean_text, pr_links = links,
                    pr_full_summary = full_summary, pr_middle_summary = middle_summary,
                    pr_short_summary = short_summary, pr_resources = resources,
                    pr_error = None\<rparr>))"

text \<open>Request 5, lines 350 to 425.  The request is made whatever \<open>links\<close> holds.\<close>

definition request5 ::
  "loader \<Rightarrow> (json \<Rightarrow> pystr) \<Rightarrow> client \<Rightarrow> (pystr \<times> pystr) list \<Rightarrow> int \<Rightarrow> int list \<Rightarrow>
   json \<Rightarrow> json \<Rightarrow> pystr \<Rightarrow> json \<Rightarrow> pystr \<Rightarrow> pystr list \<Rightarrow> (exn + chat_result) \<times> pystr list" where
  "request5 loads py_str cl prompts max_retries backoff_ms clean_text links full_summary
     middle_summary short_summary sent =
     (let resources_template = template prompts (py ''P5_RESOURCES_FACT'') fallback_resources
      in case links_str links of
           Inl e \<Rightarrow> (Inl e, sent)
         | Inr ls \<Rightarrow>
             (case replace_with resources_template (py ''<<<clean_text>>>'') clean_text of
                Inl e \<Rightarrow> (Inl e, sent)
              | Inr resources_prompt \<Rightarrow>
                  (case request cl max_retries backoff_ms sent resources_prompt of
                     (Inl e, sent') \<Rightarrow> (Inl e, sent')
                   | (Inr resources_response, sent') \<Rightarrow>
                       (case chat_resources loads py_str resources_response of
                          Inl e \<Rightarrow> (Inl e, sent')
                        | Inr resources_list \<Rightarrow>
                            (chat_finish clean_text links full_summary middle_summary
                               short_summary resources_list, sent')))))"

text \<open>Request 4, lines 315 to 348.\<close>

definition request4 ::
  "loader \<Rightarrow> (json \<Rightarrow> pystr) \<Rightarrow> client \<Rightarrow> (pystr \<times> pystr) list \<Rightarrow> int \<Rightarrow> int list \<Rightarrow>
   json \<Rightarrow> json \<Rightarrow> pystr \<Rightarrow> json \<Rightarrow> pystr list \<Rightarrow> (exn + chat_result) \<times> pystr list" where
  "request4 loads py_str cl prompts max_retries backoff_ms clean_text links full_summary
     middle_summary sent =
     (let short_template = template prompts (py ''P4_SHORT_300_TITLECHECK'') fallback_short
      in case replace_with short_template (py ''<<<clean_text>>>'') clean_text of
           Inl e \<Rightarrow> (Inl e, sent)
         | Inr p \<Rightarrow>
             (let short_prompt =
                    py_replace (py ''<<<video_title>>>'')
                      [1085, 1077, 1086, 1087, 1088, 1077, 1076, 1077, 1083, 1077, 1085, 1086] p
              in case request cl max_retries backoff_ms sent short_prompt of
                   (Inl e, sent') \<Rightarrow> (Inl e, sent')
                 | (Inr short_response, sent') \<Rightarrow>
                     request5 loads py_str cl prompts max_retries backoff_ms clean_text links
                       full_summary middle_summary (chat_short short_response) sent'))"

text \<open>Request 3, lines 271 to 313.\<close>

definition request3 ::
  "loader \<Rightarrow> (json \<Rightarrow> pystr) \<Rightarrow> client \<Rightarrow> (pystr \<times> pystr) list \<Rightarrow> int \<Rightarrow> int list \<Rightarrow>
   json \<Rightarrow> json \<Rightarrow> pystr \<Rightarrow> pystr list \<Rightarrow> (exn + chat_result) \<times> pystr list" where
  "request3 loads py_str cl prompts max_retries backoff_ms clean_text links full_summary sent =
     (let middle_template = template prompts (py ''P3_MIDDLE_800'') fallback_middle
      in case replace_with middle_template (py ''<<<clean_text>>>'') clean_text of
           Inl e \<Rightarrow> (Inl e, sent)
         | Inr middle_prompt \<Rightarrow>
             (case request cl max_retries backoff_ms sent middle_prompt of
                (Inl e, sent') \<Rightarrow> (Inl e, sent')
              | (Inr middle_response, sent') \<Rightarrow>
                  (case chat_middle_text loads middle_response of
                     Inl e \<Rightarrow> (Inl e, sent')
                   | Inr middle_text \<Rightarrow>
                       (case chat_middle_cap middle_text of
                          Inl e \<Rightarrow> (Inl e, sent')
                        | Inr middle_summary \<Rightarrow>
                            request4 loads py_str cl prompts max_retries backoff_ms clean_text
                              links full_summary middle_summary sent'))))"

text \<open>Request 2, lines 250 to 269.\<close>

definition request2 ::
  "loader \<Rightarrow> (json \<Rightarrow> pystr) \<Rightarrow> client \<Rightarrow> (pystr \<times> pystr) list \<Rightarrow> int \<Rightarrow> int list \<Rightarrow>
   json \<Rightarrow> json \<Rightarrow> pystr list \<Rightarrow> (exn + chat_result) \<times> pystr list" where
  "request2 loads py_str cl prompts max_retries backoff_ms clean_text links sent =
     (let full_template = template prompts (py ''P2_FULL_EXPANDED'') fallback_full
      in case replace_with full_template (py ''<<<clean_text>>>'') clean_text of
           Inl e \<Rightarrow> (Inl e, sent)
         | Inr full_prompt \<Rightarrow>
             (case request cl max_retries backoff_ms sent full_prompt of
                (Inl e, sent') \<Rightarrow> (Inl e, sent')
              | (Inr full_summary, sent') \<Rightarrow>
                  request3 loads py_str cl prompts max_retries backoff_ms clean_text links
                    full_summary sent'))"

text \<open>
  Request 1, lines 206 to 248.  There is one cleaning request; a response that cannot be
  decoded gives an empty cleaning result, and an empty clean text is replaced by the
  transcript.
\<close>

definition request1 ::
  "loader \<Rightarrow> (json \<Rightarrow> pystr) \<Rightarrow> client \<Rightarrow> (pystr \<times> pystr) list \<Rightarrow> int \<Rightarrow> int list \<Rightarrow>
   pystr \<Rightarrow> (exn + chat_result) \<times> pystr list" where
  "request1 loads py_str cl prompts max_retries backoff_ms transcript_text =
     (let clean_template = template prompts (py ''P1_CLEAN'') fallback_clean;
          clean_prompt = py_replace (py ''<<<transcript>>>'') transcript_text clean_template
      in case request cl max_retries backoff_ms [] clean_prompt of
           (Inl e, sent) \<Rightarrow> (Inl e, sent)
         | (Inr clean_response, sent) \<Rightarrow>
             (let clean_data = chat_clean_data loads clean_response
              in case json_get clean_data (py ''clean'') (JStr []) of
                   Inl e \<Rightarrow> (Inl e, sent)
                 | Inr c \<Rightarrow>
                     (case json_get clean_data (py ''links'') (JList []) of
                        Inl e \<Rightarrow> (Inl e, sent)
                      | Inr links \<Rightarrow>
                          request2 loads py_str cl prompts max_retries backoff_ms
                            (if truthy c then c else JStr transcript_text) links sent)))"

text \<open>
  \<open>process_transcript_chat\<close>: without a client or without prompts nothing is sent; an
  exception of the \<open>try\<close> becomes the \<open>processing_error\<close> result.
\<close>

definition process_transcript_chat ::
  "loader \<Rightarrow> (json \<Rightarrow> pystr) \<Rightarrow> client option \<Rightarrow> (pystr \<times> pystr) list \<Rightarrow> int \<Rightarrow> int list \<Rightarrow>
   pystr \<Rightarrow> chat_result \<times> pystr list" where
  "process_transcript_chat loads py_str client prompts max_retries backoff_ms transcript_text =
     (case client of
        None \<Rightarrow> (error_result (py ''no_client'') no_client_detail, [])
      | Some cl \<Rightarrow>
          (if prompts = [] then (error_result (py ''no_prompts'') no_prompts_detail, [])
           else
             (case request1 loads py_str cl prompts max_retries backoff_ms transcript_text of
                (Inl e, sent) \<Rightarrow> (error_result (py ''processing_error'') (exn_str e), sent)
              | (Inr results, sent) \<Rightarrow> (results, sent))))"


section \<open>Concrete inputs\<close>

text \<open>
  A queue of capacity 2 that has accepted two submissions of chat 42, and the same queue
  after the first of them has been taken out and not yet marked completed.
\<close>

definition ex_clock1 :: clock where
  "ex_clock1 = \<lparr>now_dt = 1700000000, now_epoch = 1700000000\<rparr>"

definition ex_clock2 :: clock where
  "ex_clock2 = \<lparr>now_dt = 1700000007, now_epoch = 1700000007\<rparr>"

definition ex_task1 :: UrlTask where
  "ex_task1 = new_task (py ''https://youtu.be/a1'') (SrcInt 42) ex_clock1"

definition ex_task2 :: UrlTask where
  "ex_task2 = new_task (py ''https://youtu.be/b2'') (SrcInt 42) ex_clock2"

definition ex_queue2 :: UrlQueue where
  "ex_queue2 =
     snd (add_url (snd (add_url (init_queue 2) (py ''https://youtu.be/a1'') (SrcInt 42) ex_clock1))
            (py ''https://youtu.be/b2'') (SrcInt 42) ex_clock2)"

definition ex_queue1 :: UrlQueue where
  "ex_queue1 = \<lparr>max_size = 2, queue = [ex_task2], processing_task = Some ex_task1\<rparr>"

definition ex_reqs :: "(pystr \<times> source \<times> clock) list" where
  "ex_reqs = [(py ''https://youtu.be/a1'', SrcInt 42, ex_clock1),
              (py ''https://youtu.be/b2'', SrcInt 42, ex_clock2)]"

text \<open>
  Three behaviours of the collaborators: processing succeeds with summaries, processing
  returns a handled failure, and processing raises.  Every push returns; there is no
  logging callback in the first, and one that returns in the other two.
\<close>

definition ex_env_success :: env where
  "ex_env_success =
     \<lparr>e_process = (\<lambda>u. Returns \<lparr>p_success = True, p_summaries = True\<rparr>),
      e_send = (\<lambda>st. Returns ()), e_log = None\<rparr>"

definition ex_env_failure :: env where
  "ex_env_failure =
     \<lparr>e_process = (\<lambda>u. Returns \<lparr>p_success = False, p_summaries = False\<rparr>),
      e_send = (\<lambda>st. Returns ()), e_log = Some (\<lambda>ls. Returns ())\<rparr>"

definition ex_env_raises :: env where
  "ex_env_raises =
     \<lparr>e_process = (\<lambda>u. Raises (OtherError (py ''connection reset''))),
      e_send = (\<lambda>st. Returns ()), e_log = Some (\<lambda>ls. Returns ())\<rparr>"

text \<open>
  Processing succeeds and every push returns, with a logging callback whose \<open>print\<close>
  raises at every call (the standard output has been closed), and with one that raises
  only at the logging of the completed job.
\<close>

definition ex_env_log_broken :: env where
  "ex_env_log_broken =
     \<lparr>e_process = (\<lambda>u. Returns \<lparr>p_success = True, p_summaries = True\<rparr>),
      e_send = (\<lambda>st. Returns ()),
      e_log = Some (\<lambda>ls. Raises (OtherError (py ''[Errno 32] Broken pipe'')))\<rparr>"

definition ex_env_log_done_broken :: env where
  "ex_env_log_done_broken =
     \<lparr>e_process = (\<lambda>u. Returns \<lparr>p_success = True, p_summaries = True\<rparr>),
      e_send = (\<lambda>st. Returns ()),
      e_log = Some (\<lambda>ls. if ls = LogDone then Raises (OtherError (py ''[Errno 32] Broken pipe''))
                         else Returns ())\<rparr>"

text \<open>A collaborator that answers every call with the given text.\<close>

definition ex_model :: "pystr \<Rightarrow> model" where
  "ex_model t = (\<lambda>pid input. \<lparr>cr_ok = True, cr_text = t, cr_error = None\<rparr>)"

text \<open>
  Two responses longer than 300 characters, each with a single space: at index 260, and
  at index 250.
\<close>

definition ex_short_260 :: pystr where
  "ex_short_260 = replicate 260 97 @ 32 # replicate 60 97"

definition ex_short_250 :: pystr where
  "ex_short_250 = replicate 250 97 @ 32 # replicate 50 97"

text \<open>
  What the elements of \<open>sentences\<close> are: non-empty, without whitespace at either end
  and without a sentence-terminal mark.
\<close>

definition sentence :: "pystr \<Rightarrow> bool" where
  "sentence x \<longleftrightarrow> x \<noteq> [] \<and> \<not> is_space (hd x) \<and> \<not> is_space (last x) \<and> (\<forall>c \<in> set x. \<not> is_mark c)"

text \<open>
  A response of eleven sentences, and a response of nine sentences that uses an ellipsis
  and a doubled mark, so that it holds twelve sentence-terminal marks.
\<close>

definition ex_eleven :: pystr where
  "ex_eleven = py ''a. b. c. d. e. f. g. h. i. j. k.''"

definition ex_ellipsis :: pystr where
  "ex_ellipsis = py ''A. B. C... D?! E. F. G. H. I.''"

text \<open>
  A service-overloaded error and an invalid-argument error of the provider, and three
  behaviours of the retried function: overloaded once and then answering, failing with
  the invalid-argument error, and overloaded at every invocation.
\<close>

definition ex_503 :: exn where
  "ex_503 = OtherError (py ''503 UNAVAILABLE. The model is overloaded.'')"

definition ex_fatal :: exn where
  "ex_fatal = OtherError (py ''400 INVALID_ARGUMENT'')"

definition ex_func_recover :: "nat \<Rightarrow> exn + pystr" where
  "ex_func_recover k = (if k = 0 then Inl ex_503 else Inr (py ''ok''))"

definition ex_func_fatal :: "nat \<Rightarrow> exn + pystr" where
  "ex_func_fatal k = Inl ex_fatal"

definition ex_func_down :: "nat \<Rightarrow> exn + pystr" where
  "ex_func_down k = Inl ex_503"

text \<open>
  A \<open>json.loads\<close> that rejects every text, a \<open>json.loads\<close> that decodes a cleaning
  result with five entries under \<open>links\<close>, the links that \<open>run_clean\<close> keeps of them,
  and a stand-in for \<open>str\<close> on decoded values.
\<close>

definition ex_loads_reject :: loader where
  "ex_loads_reject t = Inl (py ''Expecting value: line 1 column 1 (char 0)'')"

definition ex_py_str :: "json \<Rightarrow> pystr" where
  "ex_py_str v = py ''None''"

definition ex_loads_links :: loader where
  "ex_loads_links t =
     Inr (JDict [(py ''clean'', JStr (py ''Intro and main part'')),
                 (py ''links'', JList [JStr (py ''https://a.example/x''),
                                       JStr (py ''https://a.example/x''),
                                       JStr (py ''see description''), JInt 3,
                                       JStr (py ''http://c.example'')])])"

definition ex_links :: "pystr list" where
  "ex_links = [py ''https://a.example/x'', py ''https://a.example/x'', py ''http://c.example'']"


text \<open>
  For the chat pipeline: five short prompts; a client that answers every message with
  the same plain sentence; and a client whose first response is a cleaning result in JSON
  with one link and whose later responses are two equal lines, with a \<open>json.loads\<close>
  that decodes that cleaning result and rejects the other texts.
\<close>

definition ex_prompts :: "(pystr \<times> pystr) list" where
  "ex_prompts =
     [(py ''P1_CLEAN'', py ''C <<<transcript>>>''),
      (py ''P2_FULL_EXPANDED'', py ''F <<<clean_text>>>''),
      (py ''P3_MIDDLE_800'', py ''M <<<clean_text>>>''),
      (py ''P4_SHORT_300_TITLECHECK'', py ''S <<<clean_text>>>''),
      (py ''P5_RESOURCES_FACT'', py ''R <<<clean_text>>>'')]"

definition ex_client_plain :: client where
  "ex_client_plain n prompt = Inr (Some (py ''Sorry, I cannot help.''))"

definition ex_clean_json :: pystr where
  "ex_clean_json =
     [123, 34, 99, 108, 101, 97, 110, 34, 58, 34, 73, 110, 116, 114, 111, 34, 44, 34, 108,
      105, 110, 107, 115, 34, 58, 91, 34, 104, 116, 116, 112, 115, 58, 47, 47, 97, 46, 101,
      120, 97, 109, 112, 108, 101, 47, 120, 34, 93, 125]"

definition ex_loads_chat :: loader where
  "ex_loads_chat t =
     (if t = ex_clean_json then
        Inr (JDict [(py ''clean'', JStr (py ''Intro'')),
                    (py ''links'', JList [JStr (py ''https://a.example/x'')])])
      else Inl (py ''Expecting value: line 1 column 1 (char 0)''))"

definition ex_client_chat :: client where
  "ex_client_chat n prompt =
     (if n = 0 then Inr (Some ex_clean_json)
      else Inr (Some (py ''Notion AI'' @ [10] @ py ''Notion AI'')))"

section \<open>Properties of the queue\<close>

lemma ex_queue2_eq:
  "ex_queue2 = \<lparr>max_size = 2, queue = [ex_task1, ex_task2], processing_task = None\<rparr>"
  by (simp add: ex_queue2_def add_url_def init_queue_def ex_task1_def ex_task2_def Let_def)

lemma ex_dequeue: "get_next_url ex_queue2 = (Some ex_task1, ex_queue1)"
  by (simp add: ex_queue2_eq ex_queue1_def get_next_url_def)

lemma ex_tasks_differ: "task_id ex_task1 \<noteq> task_id ex_task2"
  by (simp add: ex_task1_def ex_task2_def new_task_def ex_clock1_def ex_clock2_def
      str_int_def digits.simps py_def)

text \<open>
  C1, as the specification states it: once a job has been taken out and not yet marked
  completed, a further \<open>get_next_url\<close> returns nothing, even when jobs are waiting.
  \<open>get_next_url\<close> does not look at \<open>processing_task\<close>: on the queue that holds two jobs,
  the first call returns the first job and records it as in flight, and the second call,
  made before any \<open>mark_completed\<close>, returns the second job.
\<close>

theorem get_next_url_in_flight_counterexample:
  "get_next_url ex_queue2 = (Some ex_task1, ex_queue1) \<and>
   processing_task ex_queue1 = Some ex_task1 \<and>
   queue ex_queue1 = [ex_task2] \<and>
   fst (get_next_url ex_queue1) = Some ex_task2"
  by (simp add: ex_queue2_eq ex_queue1_def get_next_url_def)

text \<open>
  C1, amended: the queue records one in-flight job, the one most recently taken out.
  When a job has been taken out and not yet marked completed, a further \<open>get_next_url\<close>
  returns nothing exactly when no job is waiting; when jobs are waiting it returns the
  one at the head, removes it from the waiting sequence and records it as the in-flight
  job in place of the previous one.
\<close>

theorem get_next_url_empty_iff:
  assumes "get_next_url q0 = (Some t, q)"
  shows "processing_task q = Some t \<and>
         (fst (get_next_url q) = None \<longleftrightarrow> queue q = []) \<and>
         (queue q \<noteq> [] \<longrightarrow>
            fst (get_next_url q) = Some (hd (queue q)) \<and>
            processing_task (snd (get_next_url q)) = Some (hd (queue q)) \<and>
            queue (snd (get_next_url q)) = tl (queue q))"
  using assms by (auto simp: get_next_url_def split: list.splits)

theorem get_next_url_empty_iff_witness:
  "processing_task ex_queue1 = Some ex_task1 \<and> queue ex_queue1 \<noteq> [] \<and>
   fst (get_next_url ex_queue1) = Some ex_task2 \<and>
   processing_task (snd (get_next_url ex_queue1)) = Some ex_task2 \<and>
   queue (snd (get_next_url ex_queue1)) = []"
proof -
  have q: "queue ex_queue1 = [ex_task2]"
    by (simp add: ex_queue1_def)
  from get_next_url_empty_iff [OF ex_dequeue] q show ?thesis by simp
qed

lemma add_urls_bound:
  "int (length (queue (snd (add_urls q reqs)))) \<le> max (int (length (queue q))) (max_size q) \<and>
   max_size (snd (add_urls q reqs)) = max_size q"
proof (induction reqs arbitrary: q)
  case Nil
  show ?case by simp
next
  case (Cons a reqs)
  obtain u s c where a: "a = (u, s, c)" by (cases a)
  let ?q1 = "snd (add_url q u s c)"
  have step: "int (length (queue ?q1)) \<le> max (int (length (queue q))) (max_size q) \<and>
              max_size ?q1 = max_size q"
    by (simp add: add_url_def Let_def)
  have "snd (add_urls q (a # reqs)) = snd (add_urls ?q1 reqs)"
    by (simp add: a split_beta Let_def)
  with Cons.IH[of ?q1] step show ?case by auto
qed

text \<open>
  C3: the queue is bounded.  Whenever the number of waiting jobs has reached \<open>max_size\<close>,
  \<open>add_url\<close> answers \<open>success = False\<close> and returns the queue as it was; below
  \<open>max_size\<close> it accepts and appends the new job at the end; and no run of \<open>add_url\<close>
  calls takes the number of waiting jobs above \<open>max_size\<close>.  \<open>add_url\<close> is a total
  function of the queue state: it answers in every state and has no waiting loop.
\<close>

theorem add_url_bounded:
  "(max_size q \<le> int (length (queue q)) \<longrightarrow>
      \<not> r_success (fst (add_url q u s c)) \<and> snd (add_url q u s c) = q) \<and>
   (int (length (queue q)) < max_size q \<longrightarrow>
      r_success (fst (add_url q u s c)) \<and>
      queue (snd (add_url q u s c)) = queue q @ [new_task u s c] \<and>
      processing_task (snd (add_url q u s c)) = processing_task q \<and>
      max_size (snd (add_url q u s c)) = max_size q) \<and>
   (int (length (queue q)) \<le> max_size q \<longrightarrow>
      int (length (queue (snd (add_urls q reqs)))) \<le> max_size q)"
  using add_urls_bound[of q reqs] by (auto simp: add_url_def Let_def)

theorem add_url_bounded_witness:
  "max_size ex_queue2 \<le> int (length (queue ex_queue2)) \<and>
   \<not> r_success (fst (add_url ex_queue2 (py ''https://youtu.be/c3'') (SrcInt 42) ex_clock2)) \<and>
   snd (add_url ex_queue2 (py ''https://youtu.be/c3'') (SrcInt 42) ex_clock2) = ex_queue2 \<and>
   int (length (queue ex_queue1)) < max_size ex_queue1 \<and>
   r_success (fst (add_url ex_queue1 (py ''https://youtu.be/c3'') (SrcInt 42) ex_clock2)) \<and>
   int (length (queue (snd (add_urls ex_queue1
      [(py ''https://youtu.be/c3'', SrcInt 42, ex_clock2),
       (py ''https://youtu.be/d4'', SrcInt 42, ex_clock2)])))) \<le> max_size ex_queue1"
proof -
  have full: "max_size ex_queue2 \<le> int (length (queue ex_queue2))"
    by (simp add: ex_queue2_eq)
  have room: "int (length (queue ex_queue1)) < max_size ex_queue1"
    by (simp add: ex_queue1_def)
  from add_url_bounded [of ex_queue2 "py ''https://youtu.be/c3''" "SrcInt 42" ex_clock2 "[]"]
       add_url_bounded [of ex_queue1 "py ''https://youtu.be/c3''" "SrcInt 42" ex_clock2
          "[(py ''https://youtu.be/c3'', SrcInt 42, ex_clock2),
            (py ''https://youtu.be/d4'', SrcInt 42, ex_clock2)]"]
       full room
  show ?thesis by simp
qed

text \<open>
  C5: \<open>mark_completed\<close> returns \<open>True\<close> exactly when the given id is the id of the
  recorded in-flight job, and then clears the record; for any other id, and when no job
  is in flight, it returns \<open>False\<close> and the queue is unchanged.
\<close>

theorem mark_completed_iff:
  "(fst (mark_completed q tid) \<longleftrightarrow> (\<exists>t. processing_task q = Some t \<and> task_id t = tid)) \<and>
   (fst (mark_completed q tid) \<longrightarrow> snd (mark_completed q tid) = q\<lparr>processing_task := None\<rparr>) \<and>
   (\<not> fst (mark_completed q tid) \<longrightarrow> snd (mark_completed q tid) = q)"
  by (auto simp: mark_completed_def split: option.splits)

theorem mark_completed_iff_witness:
  "fst (mark_completed ex_queue1 (task_id ex_task1)) \<and>
   snd (mark_completed ex_queue1 (task_id ex_task1)) = ex_queue1\<lparr>processing_task := None\<rparr> \<and>
   \<not> fst (mark_completed ex_queue1 (task_id ex_task2)) \<and>
   snd (mark_completed ex_queue1 (task_id ex_task2)) = ex_queue1 \<and>
   \<not> fst (mark_completed ex_queue2 (task_id ex_task1)) \<and>
   snd (mark_completed ex_queue2 (task_id ex_task1)) = ex_queue2"
proof -
  have p1: "processing_task ex_queue1 = Some ex_task1"
    by (simp add: ex_queue1_def)
  have p2: "processing_task ex_queue2 = None"
    by (simp add: ex_queue2_eq)
  from mark_completed_iff [of ex_queue1 "task_id ex_task1"]
       mark_completed_iff [of ex_queue1 "task_id ex_task2"]
       mark_completed_iff [of ex_queue2 "task_id ex_task1"]
       p1 p2 ex_tasks_differ
  show ?thesis by simp
qed

lemma add_urls_accepted:
  "\<forall>r \<in> set (fst (add_urls q reqs)). r_success r \<Longrightarrow>
   queue (snd (add_urls q reqs)) = queue q @ map (\<lambda>(u, s, c). new_task u s c) reqs"
proof (induction reqs arbitrary: q)
  case Nil
  show ?case by simp
next
  case (Cons a reqs)
  obtain u s c where a: "a = (u, s, c)" by (cases a)
  let ?q1 = "snd (add_url q u s c)"
  have unfold: "fst (add_urls q (a # reqs)) = fst (add_url q u s c) # fst (add_urls ?q1 reqs)"
               "snd (add_urls q (a # reqs)) = snd (add_urls ?q1 reqs)"
    by (simp_all add: a split_beta Let_def)
  from Cons.prems unfold have ok: "r_success (fst (add_url q u s c))"
    and rest: "\<forall>r \<in> set (fst (add_urls ?q1 reqs)). r_success r" by simp_all
  from ok have q1: "queue ?q1 = queue q @ [new_task u s c]"
    by (auto simp: add_url_def Let_def split: if_splits)
  from Cons.IH[OF rest] q1 unfold a show ?case by simp
qed

lemma get_next_urls_fst:
  "fst (get_next_urls n q) =
     map Some (take n (queue q)) @ replicate (n - length (queue q)) None"
proof (induction n arbitrary: q)
  case 0
  show ?case by simp
next
  case (Suc n)
  show ?case
  proof (cases "queue q")
    case Nil
    with Suc.IH[of q] show ?thesis
      by (simp add: get_next_url_def split_beta replicate_app_Cons_same)
  next
    case (Cons t rest)
    with Suc.IH[of "q\<lparr>queue := rest, processing_task := Some t\<rparr>"] show ?thesis
      by (simp add: get_next_url_def split_beta)
  qed
qed

text \<open>
  C4: first in, first out.  After a run of \<open>add_url\<close> calls that were all accepted, any
  number \<open>n\<close> of \<open>get_next_url\<close> calls returns the first \<open>n\<close> waiting jobs, oldest
  first: the jobs that were already waiting, then the new ones in the order of their
  submission, then nothing.  On a queue that was empty, N accepted submissions followed
  by N calls of \<open>get_next_url\<close> return exactly the N jobs in the order of submission.
\<close>

theorem fifo_order:
  assumes "\<forall>r \<in> set (fst (add_urls q reqs)). r_success r"
  shows "fst (get_next_urls n (snd (add_urls q reqs))) =
           map Some (take n (queue q @ map (\<lambda>(u, s, c). new_task u s c) reqs)) @
           replicate (n - (length (queue q) + length reqs)) None \<and>
         (queue q = [] \<longrightarrow>
            fst (get_next_urls (length reqs) (snd (add_urls q reqs))) =
              map (\<lambda>(u, s, c). Some (new_task u s c)) reqs)"
proof -
  have *: "queue (snd (add_urls q reqs)) = queue q @ map (\<lambda>(u, s, c). new_task u s c) reqs"
    using assms by (rule add_urls_accepted)
  show ?thesis
    by (simp add: get_next_urls_fst * split_beta comp_def)
qed

theorem fifo_order_witness:
  "map r_success (fst (add_urls (init_queue 2) ex_reqs)) = [True, True] \<and>
   queue (init_queue 2) = [] \<and>
   fst (get_next_urls 2 (snd (add_urls (init_queue 2) ex_reqs))) = [Some ex_task1, Some ex_task2]"
proof -
  have m: "map r_success (fst (add_urls (init_queue 2) ex_reqs)) = [True, True]"
    by (simp add: ex_reqs_def add_url_def init_queue_def split_beta Let_def)
  have "set (map r_success (fst (add_urls (init_queue 2) ex_reqs))) \<subseteq> {True}"
    unfolding m by simp
  then have acc: "\<forall>r \<in> set (fst (add_urls (init_queue 2) ex_reqs)). r_success r"
    by auto
  have e: "queue (init_queue 2) = []" by (simp add: init_queue_def)
  have l: "length ex_reqs = 2" by (simp add: ex_reqs_def)
  from fifo_order [OF acc, of 2] e l
  have "fst (get_next_urls 2 (snd (add_urls (init_queue 2) ex_reqs))) =
          [Some ex_task1, Some ex_task2]"
    by (simp add: ex_reqs_def ex_task1_def ex_task2_def)
  with m e show ?thesis by blast
qed

section \<open>Properties of the worker's job step\<close>

lemma send_replies_no_mark: "filter is_marked (snd (send_replies ev task res)) = []"
  by (simp add: send_replies_def split: attempt.splits)

lemma call_log_no_mark: "filter is_marked (snd (call_log ev ls)) = []"
  by (simp add: call_log_def split: option.splits attempt.splits)

text \<open>
  When the logging callback is absent or returns at every call, \<open>mark_completed\<close> is
  invoked on the job's id exactly once, with result \<open>True\<close>, and no in-flight record
  remains: for processing that succeeds, that returns a handled failure or that raises,
  and also when a push raises.
\<close>

lemma process_single_url_quiet_log:
  assumes "queue q = task # rest"
    and "\<forall>log_func ls. e_log ev = Some log_func \<longrightarrow> log_func ls = Returns ()"
  shows "filter is_marked (snd (snd (process_single_url ev q))) = [Marked (task_id task) True] \<and>
         processing_task (fst (snd (process_single_url ev q))) = None \<and>
         queue (fst (snd (process_single_url ev q))) = rest"
proof -
  let ?q1 = "q\<lparr>queue := rest, processing_task := Some task\<rparr>"
  have g: "get_next_url q = (Some task, ?q1)"
    using assms(1) by (simp add: get_next_url_def)
  have m: "mark_completed ?q1 (task_id task) = (True, ?q1\<lparr>processing_task := None\<rparr>)"
    by (simp add: mark_completed_def)
  have quiet: "fst (call_log ev ls) = None" for ls
    using assms(2) by (cases "e_log ev") (auto simp: call_log_def)
  obtain l0 where l0: "call_log ev LogStart = (None, l0)" "filter is_marked l0 = []"
    using quiet[of LogStart] call_log_no_mark[of ev LogStart]
    by (cases "call_log ev LogStart") simp
  obtain l1 where l1: "call_log ev LogDone = (None, l1)" "filter is_marked l1 = []"
    using quiet[of LogDone] call_log_no_mark[of ev LogDone]
    by (cases "call_log ev LogDone") simp
  obtain l2 where l2: "call_log ev LogException = (None, l2)" "filter is_marked l2 = []"
    using quiet[of LogException] call_log_no_mark[of ev LogException]
    by (cases "call_log ev LogException") simp
  show ?thesis
  proof (cases "e_process ev (url task)")
    case (Raises e)
    then show ?thesis
      by (simp add: process_single_url_def g try_block_def except_block_def m l0 l2
          split: attempt.splits)
  next
    case (Returns res)
    obtain oe evs where sr: "send_replies ev task res = (oe, evs)"
      by (cases "send_replies ev task res")
    from send_replies_no_mark[of ev task res] sr have nm: "filter is_marked evs = []" by simp
    show ?thesis
      by (cases oe)
        (simp_all add: process_single_url_def g try_block_def except_block_def m Returns sr nm
          l0 l1 l2 split: attempt.splits)
  qed
qed

lemma process_single_url_quiet_log_examples:
  "filter is_marked (snd (snd (process_single_url ex_env_success ex_queue2))) =
     [Marked (task_id ex_task1) True] \<and>
   filter is_marked (snd (snd (process_single_url ex_env_failure ex_queue2))) =
     [Marked (task_id ex_task1) True] \<and>
   filter is_marked (snd (snd (process_single_url ex_env_raises ex_queue2))) =
     [Marked (task_id ex_task1) True] \<and>
   fst (process_single_url ex_env_raises ex_queue2) = Inr True \<and>
   processing_task (fst (snd (process_single_url ex_env_raises ex_queue2))) = None"
proof -
  have q: "queue ex_queue2 = ex_task1 # [ex_task2]"
    by (simp add: ex_queue2_eq)
  have r: "fst (process_single_url ex_env_raises ex_queue2) = Inr True"
    by (simp add: process_single_url_def get_next_url_def try_block_def except_block_def
        mark_completed_def call_log_def ex_env_raises_def ex_queue2_eq)
  have h1: "\<forall>log_func ls. e_log ex_env_success = Some log_func \<longrightarrow> log_func ls = Returns ()"
    by (simp add: ex_env_success_def)
  have h2: "\<forall>log_func ls. e_log ex_env_failure = Some log_func \<longrightarrow> log_func ls = Returns ()"
    by (auto simp: ex_env_failure_def)
  have h3: "\<forall>log_func ls. e_log ex_env_raises = Some log_func \<longrightarrow> log_func ls = Returns ()"
    by (auto simp: ex_env_raises_def)
  have "filter is_marked (snd (snd (process_single_url ex_env_success ex_queue2))) =
     [Marked (task_id ex_task1) True]"
    using process_single_url_quiet_log [OF q h1] by simp
  moreover have "filter is_marked (snd (snd (process_single_url ex_env_failure ex_queue2))) =
     [Marked (task_id ex_task1) True]"
    using process_single_url_quiet_log [OF q h2] by simp
  moreover have "filter is_marked (snd (snd (process_single_url ex_env_raises ex_queue2))) =
       [Marked (task_id ex_task1) True] \<and>
     processing_task (fst (snd (process_single_url ex_env_raises ex_queue2))) = None"
    using process_single_url_quiet_log [OF q h3] by simp
  ultimately show ?thesis using r by simp
qed

text \<open>
  C2: every job taken out of the queue is to be marked completed exactly once, on every
  outcome, so that no in-flight record is left behind.  \<open>process_single_url\<close> calls
  \<open>mark_completed\<close> in the body of the \<open>try\<close> and again in the handler, "even on
  error" as the comment of line 147 says, but not in a \<open>finally\<close>, and two of its
  logging calls escape the guard.  With a logging callback that raises at every call,
  the call of lines 110 to 112 raises before the \<open>try\<close>: the function leaves with that
  exception, \<open>mark_completed\<close> is never invoked and the job stays recorded as in
  flight.  With a callback that raises only at lines 136 to 142, after the first
  \<open>mark_completed\<close>, the handler invokes \<open>mark_completed\<close> a second time.
\<close>

theorem process_single_url_log_raises:
  "process_single_url ex_env_log_broken ex_queue2 =
     (Inl (OtherError (py ''[Errno 32] Broken pipe'')), ex_queue1, [Logged LogStart]) \<and>
   processing_task ex_queue1 = Some ex_task1 \<and>
   filter is_marked (snd (snd (process_single_url ex_env_log_broken ex_queue2))) = [] \<and>
   filter is_marked (snd (snd (process_single_url ex_env_log_done_broken ex_queue2))) =
     [Marked (task_id ex_task1) True, Marked (task_id ex_task1) False]"
proof -
  have a: "process_single_url ex_env_log_broken ex_queue2 =
     (Inl (OtherError (py ''[Errno 32] Broken pipe'')), ex_queue1, [Logged LogStart])"
    by (simp add: process_single_url_def ex_dequeue call_log_def ex_env_log_broken_def)
  have b: "filter is_marked (snd (snd (process_single_url ex_env_log_done_broken ex_queue2))) =
     [Marked (task_id ex_task1) True, Marked (task_id ex_task1) False]"
    by (simp add: process_single_url_def ex_dequeue call_log_def ex_env_log_done_broken_def
        try_block_def except_block_def send_replies_def mark_completed_def ex_queue1_def)
  have c: "processing_task ex_queue1 = Some ex_task1"
    by (simp add: ex_queue1_def)
  from a b c show ?thesis by simp
qed

section \<open>Properties of the string operations\<close>

lemma rfind_absent: "c \<notin> set s \<Longrightarrow> rfind s c = - 1"
proof -
  assume "c \<notin> set s"
  then have d: "dropWhile (\<lambda>x. x \<noteq> c) (rev s) = []" by auto
  show ?thesis unfolding rfind_def d by simp
qed

lemma rfind_present:
  assumes "c \<in> set s"
  shows "\<exists>i. rfind s c = int i \<and> i < length s \<and> s ! i = c \<and>
             (\<forall>k. i < k \<and> k < length s \<longrightarrow> s ! k \<noteq> c)"
proof -
  define a where "a = takeWhile (\<lambda>x. x \<noteq> c) (rev s)"
  define d where "d = dropWhile (\<lambda>x. x \<noteq> c) (rev s)"
  from assms have "d \<noteq> []" unfolding d_def by auto
  then obtain r rs where d: "d = r # rs" by (cases d) auto
  have r: "r = c" using hd_dropWhile[of "\<lambda>x. x \<noteq> c" "rev s"] d unfolding d_def by auto
  have "rev s = a @ r # rs"
    using takeWhile_dropWhile_id[of "\<lambda>x. x \<noteq> c" "rev s"] d unfolding a_def d_def by simp
  then have "rev (rev s) = rev (a @ r # rs)" by simp
  then have s: "s = rev rs @ c # rev a" using r by simp
  have a: "c \<notin> set a" using set_takeWhileD[of c "\<lambda>x. x \<noteq> c" "rev s"] unfolding a_def by auto
  have rf: "rfind s c = int (length rs)" using d unfolding rfind_def d_def by simp
  have ls: "length s = Suc (length rs + length a)"
    using arg_cong[OF s, of length] by simp
  then have len: "length rs < length s" by simp
  have "(rev rs @ c # rev a) ! length rs = c" by (simp add: nth_append)
  with s have at: "s ! length rs = c" by simp
  have after: "\<forall>k. length rs < k \<and> k < length s \<longrightarrow> s ! k \<noteq> c"
  proof (intro allI impI)
    fix k assume k: "length rs < k \<and> k < length s"
    then have idx: "k - Suc (length rs) < length (rev a)" using ls by auto
    have "(rev rs @ c # rev a) ! k = (rev a) ! (k - Suc (length rs))"
      using k by (simp add: nth_append nth_Cons')
    with s have "s ! k = (rev a) ! (k - Suc (length rs))" by simp
    moreover have "(rev a) ! (k - Suc (length rs)) \<in> set (rev a)" using idx by (rule nth_mem)
    ultimately have "s ! k \<in> set a" by simp
    with a show "s ! k \<noteq> c" by auto
  qed
  from rf len at after show ?thesis by blast
qed


lemma strip_id:
  assumes "s \<noteq> []" "\<not> is_space (hd s)" "\<not> is_space (last s)"
  shows "strip s = s"
proof -
  from assms(1,2) have a: "dropWhile is_space s = s" by (cases s) auto
  from assms(1,3) have "\<not> is_space (hd (rev s))" by (simp add: hd_rev)
  with assms(1) have b: "dropWhile is_space (rev s) = rev s" by (cases "rev s") auto
  show ?thesis by (simp add: strip_def a b)
qed

lemma cut_300_length: "length (cut_300 t) \<le> 300"
proof (cases "300 < length t")
  case False
  then show ?thesis by (simp add: cut_300_def)
next
  case True
  then show ?thesis by (simp add: cut_300_def Let_def)
qed

lemma cut_300_cases:
  assumes "300 < length t"
  shows "((\<exists>i. 250 < i \<and> i < 300 \<and> t ! i = 32) \<longrightarrow>
            (\<exists>j. 250 < j \<and> j < 300 \<and> t ! j = 32 \<and> (\<forall>k. j < k \<and> k < 300 \<longrightarrow> t ! k \<noteq> 32) \<and>
                 cut_300 t = take j t)) \<and>
         ((\<forall>i. 250 < i \<and> i < 300 \<longrightarrow> t ! i \<noteq> 32) \<longrightarrow> cut_300 t = take 300 t)"
proof (cases "32 \<in> set (take 300 t)")
  case False
  then have rf: "rfind (take 300 t) 32 = - 1" by (rule rfind_absent)
  have no: "\<forall>i. i < 300 \<longrightarrow> t ! i \<noteq> 32"
  proof (intro allI impI)
    fix i :: nat assume "i < 300"
    then have "take 300 t ! i \<in> set (take 300 t)" using assms by (intro nth_mem) simp
    with False \<open>i < 300\<close> show "t ! i \<noteq> 32" by auto
  qed
  from rf no assms show ?thesis by (auto simp: cut_300_def)
next
  case True
  from rfind_present[OF True] obtain j where j: "rfind (take 300 t) 32 = int j"
     "j < length (take 300 t)" "take 300 t ! j = 32"
     "\<forall>k. j < k \<and> k < length (take 300 t) \<longrightarrow> take 300 t ! k \<noteq> 32" by blast
  from j(2) assms have j300: "j < 300" by simp
  from j(3) j300 have tj: "t ! j = 32" by simp
  from j(4) assms have after: "\<forall>k. j < k \<and> k < 300 \<longrightarrow> t ! k \<noteq> 32" by simp
  show ?thesis
  proof (cases "250 < j")
    case True
    then have "cut_300 t = take j t" using assms j(1) j300
      by (simp add: cut_300_def Let_def min_def)
    with True j300 tj after show ?thesis by blast
  next
    case False
    then have so: "cut_300 t = take 300 t" using assms j(1) by (simp add: cut_300_def Let_def)
    have "\<not> (\<exists>i. 250 < i \<and> i < 300 \<and> t ! i = 32)"
    proof
      assume "\<exists>i. 250 < i \<and> i < 300 \<and> t ! i = 32"
      then obtain i where i: "250 < i" "i < 300" "t ! i = 32" by blast
      with False have "j < i" by simp
      with after i show False by blast
    qed
    with so show ?thesis by blast
  qed
qed


lemma char_classes: "is_mark 46" "\<not> is_mark 32" "is_space 32" "\<not> is_space 46"
  by (simp_all add: is_mark_def is_space_def)

lemma re_split_marks_nonempty: "re_split_marks s \<noteq> []"
  by (induction s rule: re_split_marks.induct) (auto split: list.splits)

lemma re_split_marks_no_marks_all:
  "\<forall>p \<in> set (re_split_marks s). \<forall>c \<in> set p. \<not> is_mark c"
proof (induction s rule: re_split_marks.induct)
  case 1
  show ?case by simp
next
  case (2 c cs)
  show ?case
  proof (cases "is_mark c")
    case True
    with 2(1) show ?thesis by simp
  next
    case False
    obtain p ps where ps: "re_split_marks cs = p # ps"
      using re_split_marks_nonempty[of cs] by (cases "re_split_marks cs") auto
    with 2(2)[OF False] False show ?thesis by simp
  qed
qed

lemma re_split_marks_no_marks:
  "p \<in> set (re_split_marks s) \<Longrightarrow> c \<in> set p \<Longrightarrow> \<not> is_mark c"
  using re_split_marks_no_marks_all by blast

lemma re_split_marks_plain:
  "\<forall>c \<in> set x. \<not> is_mark c \<Longrightarrow> re_split_marks x = [x]"
  by (induction x) auto

lemma re_split_marks_at_mark:
  "\<forall>c \<in> set x. \<not> is_mark c \<Longrightarrow> is_mark m \<Longrightarrow>
   re_split_marks (x @ m # r) = x # re_split_marks (dropWhile is_mark r)"
  by (induction x) auto

lemma set_strip: "set (strip s) \<subseteq> set s"
proof -
  have "set (strip s) = set (dropWhile is_space (rev (dropWhile is_space s)))"
    by (simp add: strip_def)
  also have "\<dots> \<subseteq> set (rev (dropWhile is_space s))" by (rule set_dropWhileD[THEN subsetI])
  also have "\<dots> \<subseteq> set s" using set_dropWhileD[of _ is_space s] by auto
  finally show ?thesis .
qed

lemma last_dropWhile: "dropWhile P xs \<noteq> [] \<Longrightarrow> last (dropWhile P xs) = last xs"
  by (induction xs) (auto split: if_splits)

lemma strip_ends:
  assumes "strip s \<noteq> []"
  shows "\<not> is_space (hd (strip s)) \<and> \<not> is_space (last (strip s))"
proof -
  define d where "d = dropWhile is_space s"
  define e where "e = dropWhile is_space (rev d)"
  have st: "strip s = rev e" by (simp add: strip_def d_def e_def)
  with assms have e: "e \<noteq> []" by simp
  then have d: "d \<noteq> []" unfolding e_def by auto
  have "\<not> is_space (hd e)" using e hd_dropWhile[of is_space "rev d"] unfolding e_def by simp
  then have l: "\<not> is_space (last (strip s))" using e st by (simp add: last_rev)
  have "last e = last (rev d)" using e last_dropWhile[of is_space "rev d"] unfolding e_def by simp
  then have "last e = hd d" using d by (simp add: last_rev)
  moreover have "\<not> is_space (hd d)" using d hd_dropWhile[of is_space s] unfolding d_def by simp
  ultimately have "\<not> is_space (hd (strip s))" using e st by (simp add: hd_rev)
  with l show ?thesis by simp
qed

lemma strip_leading_space:
  "\<forall>c \<in> set w. is_space c \<Longrightarrow> strip (w @ x) = strip x"
  by (simp add: strip_def)

lemma strip_Nil: "strip [] = []"
  by (simp add: strip_def)

lemma sentences_are_sentences: "x \<in> set (sentences t) \<Longrightarrow> sentence x"
proof -
  assume "x \<in> set (sentences t)"
  then obtain p where p: "p \<in> set (re_split_marks t)" "strip p \<noteq> []" "x = strip p"
    by (auto simp: sentences_def)
  from strip_ends[OF p(2)] p(2,3) have "x \<noteq> [] \<and> \<not> is_space (hd x) \<and> \<not> is_space (last x)" by simp
  moreover have "\<forall>c \<in> set x. \<not> is_mark c"
    using re_split_marks_no_marks[OF p(1)] set_strip[of p] p(3) by auto
  ultimately show ?thesis by (simp add: sentence_def)
qed

lemma sentences_of_joined:
  assumes "\<forall>x \<in> set xs. sentence x" "xs \<noteq> []" "\<forall>c \<in> set w. is_space c \<and> \<not> is_mark c"
  shows "sentences (w @ join [46, 32] xs @ [46]) = xs"
  using assms
proof (induction xs arbitrary: w)
  case Nil
  then show ?case by simp
next
  case (Cons x xs)
  then have x: "sentence x" by simp
  then have nm: "\<forall>c \<in> set (w @ x). \<not> is_mark c" using Cons.prems(3) by (auto simp: sentence_def)
  have sx: "strip (w @ x) = x"
    using x Cons.prems(3) by (simp add: strip_leading_space strip_id sentence_def)
  show ?case
  proof (cases xs)
    case Nil
    have sp: "re_split_marks ((w @ x) @ 46 # []) = (w @ x) # re_split_marks (dropWhile is_mark [])"
      using nm by (intro re_split_marks_at_mark) (simp_all add: char_classes)
    with sx x Nil show ?thesis by (simp add: sentences_def strip_Nil sentence_def)
  next
    case (Cons y ys)
    let ?rest = "32 # join [46, 32] xs @ [46]"
    have sp: "re_split_marks ((w @ x) @ 46 # ?rest) = (w @ x) # re_split_marks (dropWhile is_mark ?rest)"
      using nm by (intro re_split_marks_at_mark) (simp_all add: char_classes)
    have dw: "dropWhile is_mark ?rest = [32] @ join [46, 32] xs @ [46]"
      by (simp add: char_classes)
    have ih: "sentences ([32] @ join [46, 32] xs @ [46]) = xs"
      using Cons.prems(1) Cons by (intro Cons.IH) (simp_all add: char_classes)
    have "w @ join [46, 32] (x # xs) @ [46] = (w @ x) @ 46 # ?rest" using Cons by simp
    then have "sentences (w @ join [46, 32] (x # xs) @ [46]) =
          [strip s. s \<leftarrow> (w @ x) # re_split_marks ([32] @ join [46, 32] xs @ [46]), strip s \<noteq> []]"
      unfolding sentences_def using sp dw by simp
    also have "\<dots> = x # sentences ([32] @ join [46, 32] xs @ [46])"
      using sx x by (simp add: sentences_def sentence_def)
    finally show ?thesis using ih by simp
  qed
qed

lemma marks_of_joined:
  assumes "\<forall>x \<in> set xs. sentence x" "xs \<noteq> []"
  shows "length (filter is_mark (join [46, 32] xs @ [46])) = length xs"
  using assms
proof (induction xs)
  case Nil then show ?case by simp
next
  case (Cons x xs)
  then have "\<forall>c \<in> set x. \<not> is_mark c" by (simp add: sentence_def)
  then have fx: "filter is_mark x = []" by (simp add: filter_empty_conv)
  show ?case
  proof (cases xs)
    case Nil
    with fx show ?thesis by (simp add: char_classes)
  next
    case (Cons y ys)
    have "length (filter is_mark (join [46, 32] xs @ [46])) = length xs"
      using Cons.prems Cons by (intro Cons.IH) simp_all
    with fx Cons show ?thesis by (simp add: char_classes)
  qed
qed


lemma py_literals: "py ''. '' = [46, 32]" "py ''.'' = [46]"
  by (simp_all add: py_def)


section \<open>Properties of the SHORT stage\<close>

lemma ex_short_260_strip: "strip ex_short_260 = ex_short_260"
  by (rule strip_id) (simp_all add: ex_short_260_def is_space_def)

lemma ex_short_250_strip: "strip ex_short_250 = ex_short_250"
  by (rule strip_id) (simp_all add: ex_short_250_def is_space_def)

lemma ex_short_250_no_later_space: "\<forall>i. 250 < i \<and> i < 300 \<longrightarrow> ex_short_250 ! i \<noteq> 32"
  by (auto simp: ex_short_250_def nth_append nth_Cons')


text \<open>
  C7, as the specification states it: the output is cut at the last word boundary when
  one exists within the last 50 characters of the 300-character window.  The window is
  the first 300 characters, at indices 0 to 299, and its last 50 characters are at
  indices 250 to 299.  In a response of 301 characters whose only space is at index 250,
  that space lies within the last 50 characters of the window, yet \<open>run_short_300\<close>
  cuts hard at 300: the output has 300 characters and still holds the space.
\<close>

theorem run_short_300_boundary_counterexample:
  "300 < length (strip ex_short_250) \<and> strip ex_short_250 ! 250 = 32 \<and>
   (300::nat) - 50 \<le> 250 \<and> (250::nat) < 300 \<and>
   fst (run_short_300 (ex_model ex_short_250) Map.empty []) = take 300 (strip ex_short_250) \<and>
   length (fst (run_short_300 (ex_model ex_short_250) Map.empty [])) = 300 \<and>
   fst (run_short_300 (ex_model ex_short_250) Map.empty []) ! 250 = 32"
proof -
  have l250: "300 < length ex_short_250" by (simp add: ex_short_250_def)
  have at: "ex_short_250 ! 250 = 32" by (simp add: ex_short_250_def nth_append)
  have "cut_300 ex_short_250 = take 300 ex_short_250"
    using cut_300_cases[OF l250] ex_short_250_no_later_space by blast
  then have out: "fst (run_short_300 (ex_model ex_short_250) Map.empty []) = take 300 ex_short_250"
    by (simp add: run_short_300_def ex_model_def Let_def ex_short_250_strip)
  from l250 at out show ?thesis by (simp add: ex_short_250_strip)
qed

text \<open>
  C7, amended: the output of \<open>run_short_300\<close> has at most 300 characters for every
  response of the collaborator.  A stripped response of at most 300 characters is
  returned as it is.  A longer one is cut at the last space of its first 300 characters
  when that space is at an index greater than 250, that is, within the last 49
  characters of the window (the output then ends just before that space); it is cut hard
  at 300 when there is no space at the indices 251 to 299.
\<close>

theorem run_short_300_cap:
  "length (fst (run_short_300 m cfg ct)) \<le> 300 \<and>
   (cr_ok (m (prompt_id cfg (py ''SHORT_300'') 4) ct) \<longrightarrow>
      (let t = strip (cr_text (m (prompt_id cfg (py ''SHORT_300'') 4) ct));
           out = fst (run_short_300 m cfg ct)
       in (length t \<le> 300 \<longrightarrow> out = t) \<and>
          (300 < length t \<and> (\<exists>i. 250 < i \<and> i < 300 \<and> t ! i = 32) \<longrightarrow>
             250 < length out \<and> length out < 300 \<and> out = take (length out) t \<and>
             t ! length out = 32 \<and> (\<forall>k. length out < k \<and> k < 300 \<longrightarrow> t ! k \<noteq> 32)) \<and>
          (300 < length t \<and> (\<forall>i. 250 < i \<and> i < 300 \<longrightarrow> t ! i \<noteq> 32) \<longrightarrow>
             out = take 300 t)))"
proof -
  define r where "r = m (prompt_id cfg (py ''SHORT_300'') 4) ct"
  define t where "t = strip (cr_text r)"
  have out_ok: "cr_ok r \<Longrightarrow> fst (run_short_300 m cfg ct) = cut_300 t"
    by (simp add: run_short_300_def Let_def r_def t_def)
  have out_bad: "\<not> cr_ok r \<Longrightarrow> fst (run_short_300 m cfg ct) = []"
    by (simp add: run_short_300_def Let_def r_def)
  have cap: "length (fst (run_short_300 m cfg ct)) \<le> 300"
    using out_ok out_bad cut_300_length[of t] by (cases "cr_ok r") simp_all
  have small: "length t \<le> 300 \<Longrightarrow> cut_300 t = t"
    by (simp add: cut_300_def)
  have cut: "300 < length t \<Longrightarrow> \<exists>i. 250 < i \<and> i < 300 \<and> t ! i = 32 \<Longrightarrow>
      250 < length (cut_300 t) \<and> length (cut_300 t) < 300 \<and>
      cut_300 t = take (length (cut_300 t)) t \<and> t ! length (cut_300 t) = 32 \<and>
      (\<forall>k. length (cut_300 t) < k \<and> k < 300 \<longrightarrow> t ! k \<noteq> 32)"
  proof -
    assume l: "300 < length t" and e: "\<exists>i. 250 < i \<and> i < 300 \<and> t ! i = 32"
    from cut_300_cases[OF l] e obtain j where j: "250 < j" "j < 300" "t ! j = 32"
      "\<forall>k. j < k \<and> k < 300 \<longrightarrow> t ! k \<noteq> 32" "cut_300 t = take j t" by blast
    from j(2,5) l have len: "length (cut_300 t) = j" by simp
    from j len show ?thesis by simp
  qed
  have hard: "300 < length t \<Longrightarrow> \<forall>i. 250 < i \<and> i < 300 \<longrightarrow> t ! i \<noteq> 32 \<Longrightarrow>
      cut_300 t = take 300 t"
    using cut_300_cases[of t] by blast
  show ?thesis
  proof (cases "cr_ok r")
    case False
    with cap show ?thesis unfolding r_def[symmetric] by simp
  next
    case True
    note o = out_ok[OF True]
    have c1: "length t \<le> 300 \<longrightarrow> cut_300 t = t" using small by blast
    have c2: "300 < length t \<and> (\<exists>i. 250 < i \<and> i < 300 \<and> t ! i = 32) \<longrightarrow>
             250 < length (cut_300 t) \<and> length (cut_300 t) < 300 \<and>
             cut_300 t = take (length (cut_300 t)) t \<and>
             t ! length (cut_300 t) = 32 \<and>
             (\<forall>k. length (cut_300 t) < k \<and> k < 300 \<longrightarrow> t ! k \<noteq> 32)"
      using cut by blast
    have c3: "300 < length t \<and> (\<forall>i. 250 < i \<and> i < 300 \<longrightarrow> t ! i \<noteq> 32) \<longrightarrow>
             cut_300 t = take 300 t" using hard by blast
    from cap c1 c2 c3 show ?thesis
      unfolding Let_def r_def[symmetric] t_def[symmetric] o by blast
  qed
qed

theorem run_short_300_cap_witness:
  "cr_ok (ex_model ex_short_260 (prompt_id Map.empty (py ''SHORT_300'') 4) []) \<and>
   300 < length (strip ex_short_260) \<and> strip ex_short_260 ! 260 = 32 \<and>
   length (fst (run_short_300 (ex_model ex_short_260) Map.empty [])) \<le> 300 \<and>
   250 < length (fst (run_short_300 (ex_model ex_short_260) Map.empty [])) \<and>
   300 < length (strip ex_short_250) \<and>
   fst (run_short_300 (ex_model ex_short_250) Map.empty []) = take 300 ex_short_250"
proof -
  have ok: "cr_ok (ex_model t (prompt_id Map.empty (py ''SHORT_300'') 4) [])" for t
    by (simp add: ex_model_def)
  have tx: "cr_text (ex_model t (prompt_id Map.empty (py ''SHORT_300'') 4) []) = t" for t
    by (simp add: ex_model_def)
  have l260: "300 < length ex_short_260" by (simp add: ex_short_260_def)
  have l250: "300 < length ex_short_250" by (simp add: ex_short_250_def)
  have at: "ex_short_260 ! 260 = 32" by (simp add: ex_short_260_def nth_append)
  have ex: "\<exists>i. 250 < i \<and> i < 300 \<and> ex_short_260 ! i = 32"
    using at by (intro exI[of _ 260]) simp
  from run_short_300_cap [of "ex_model ex_short_260" Map.empty "[]"]
       run_short_300_cap [of "ex_model ex_short_250" Map.empty "[]"]
       ok tx l260 l250 at ex ex_short_250_no_later_space
  show ?thesis
    by (simp add: Let_def ex_short_260_strip ex_short_250_strip)
qed


section \<open>Properties of the MIDDLE stage\<close>

lemma ex_eleven_sentences:
  "sentences ex_eleven =
     [py ''a'', py ''b'', py ''c'', py ''d'', py ''e'', py ''f'', py ''g'', py ''h'', py ''i'',
      py ''j'', py ''k'']"
  by (simp add: sentences_def strip_def ex_eleven_def ex_ellipsis_def py_def is_space_def is_mark_def)

lemma ex_ellipsis_sentences:
  "sentences ex_ellipsis =
     [py ''A'', py ''B'', py ''C'', py ''D'', py ''E'', py ''F'', py ''G'', py ''H'', py ''I'']"
  by (simp add: sentences_def strip_def ex_eleven_def ex_ellipsis_def py_def is_space_def is_mark_def)

lemma ex_ellipsis_marks: "length (filter is_mark ex_ellipsis) = 12"
  by (simp add: sentences_def strip_def ex_eleven_def ex_ellipsis_def py_def is_space_def is_mark_def)

lemma ex_ellipsis_strip: "strip ex_ellipsis = ex_ellipsis"
  by (rule strip_id) (simp_all add: ex_ellipsis_def py_def is_space_def)

lemma ex_eleven_strip: "strip ex_eleven = ex_eleven"
  by (rule strip_id) (simp_all add: ex_eleven_def py_def is_space_def)


text \<open>
  C8, as the specification states it: a response with more than 10 sentence-terminal
  marks yields an output of exactly 10 sentences.  \<open>run_middle_10\<close> counts the
  non-blank pieces between runs of marks, not the marks: the response
  \<open>A. B. C... D?! E. F. G. H. I.\<close> holds 12 marks and 9 sentences, and is returned
  as it is, with its 9 sentences and 12 marks.
\<close>

theorem run_middle_10_marks_counterexample:
  "10 < length (filter is_mark ex_ellipsis) \<and>
   fst (run_middle_10 (ex_model ex_ellipsis) Map.empty []) = ex_ellipsis \<and>
   length (sentences (fst (run_middle_10 (ex_model ex_ellipsis) Map.empty []))) = 9 \<and>
   length (filter is_mark (fst (run_middle_10 (ex_model ex_ellipsis) Map.empty []))) = 12"
proof -
  have out: "fst (run_middle_10 (ex_model ex_ellipsis) Map.empty []) = ex_ellipsis"
    by (simp add: run_middle_10_def ex_model_def Let_def ex_ellipsis_sentences ex_ellipsis_strip)
  have s: "length (sentences ex_ellipsis) = 9"
    using ex_ellipsis_sentences by simp
  have m: "length (filter is_mark ex_ellipsis) = 12"
    using ex_ellipsis_marks by simp
  from out s m show ?thesis by simp
qed

text \<open>
  C8, amended: when the stripped response splits, at its runs of sentence-terminal
  marks, into more than 10 non-blank sentences, the output of \<open>run_middle_10\<close> is the
  first 10 of them, stripped, joined with a period and a space and closed with a period;
  it holds exactly those 10 sentences and exactly 10 marks.  With 10 sentences or fewer
  the stripped response is returned as it is, without padding.
\<close>

theorem run_middle_10_sentences:
  "cr_ok (m (prompt_id cfg (py ''MIDDLE_10'') 3) ct) \<longrightarrow>
     (let t = strip (cr_text (m (prompt_id cfg (py ''MIDDLE_10'') 3) ct));
          out = fst (run_middle_10 m cfg ct)
      in (10 < length (sentences t) \<longrightarrow>
            out = join (py ''. '') (take 10 (sentences t)) @ py ''.'' \<and>
            sentences out = take 10 (sentences t) \<and>
            length (sentences out) = 10 \<and>
            length (filter is_mark out) = 10) \<and>
         (length (sentences t) \<le> 10 \<longrightarrow> out = t))"
proof (intro impI)
  define r where "r = m (prompt_id cfg (py ''MIDDLE_10'') 3) ct"
  define t where "t = strip (cr_text r)"
  define xs where "xs = take 10 (sentences t)"
  assume "cr_ok (m (prompt_id cfg (py ''MIDDLE_10'') 3) ct)"
  then have ok: "cr_ok r" by (simp add: r_def)
  have few: "length (sentences t) \<le> 10 \<Longrightarrow> fst (run_middle_10 m cfg ct) = t"
    using ok by (simp add: run_middle_10_def Let_def r_def t_def)
  have many: "fst (run_middle_10 m cfg ct) = join [46, 32] xs @ [46]"
    if "10 < length (sentences t)"
    using ok that by (simp add: run_middle_10_def Let_def r_def t_def xs_def py_literals)
  have props: "sentences (join [46, 32] xs @ [46]) = xs \<and> length xs = 10 \<and>
      length (filter is_mark (join [46, 32] xs @ [46])) = 10"
    if l: "10 < length (sentences t)"
  proof -
    have good: "\<forall>x \<in> set xs. sentence x"
      using sentences_are_sentences[of _ t] set_take_subset[of 10 "sentences t"]
      unfolding xs_def by blast
    from l have len: "length xs = 10" by (simp add: xs_def)
    then have ne: "xs \<noteq> []" by auto
    from sentences_of_joined[OF good ne, of "[]"] marks_of_joined[OF good ne] len
    show ?thesis by simp
  qed
  show "let t = strip (cr_text (m (prompt_id cfg (py ''MIDDLE_10'') 3) ct));
          out = fst (run_middle_10 m cfg ct)
      in (10 < length (sentences t) \<longrightarrow>
            out = join (py ''. '') (take 10 (sentences t)) @ py ''.'' \<and>
            sentences out = take 10 (sentences t) \<and>
            length (sentences out) = 10 \<and>
            length (filter is_mark out) = 10) \<and>
         (length (sentences t) \<le> 10 \<longrightarrow> out = t)"
    unfolding Let_def r_def[symmetric] t_def[symmetric] py_literals
    using few many props unfolding xs_def by auto
qed

theorem run_middle_10_sentences_witness:
  "cr_ok (ex_model ex_eleven (prompt_id Map.empty (py ''MIDDLE_10'') 3) []) \<and>
   10 < length (sentences (strip ex_eleven)) \<and>
   fst (run_middle_10 (ex_model ex_eleven) Map.empty []) = py ''a. b. c. d. e. f. g. h. i. j.'' \<and>
   length (sentences (fst (run_middle_10 (ex_model ex_eleven) Map.empty []))) = 10 \<and>
   length (sentences (strip ex_ellipsis)) \<le> 10 \<and>
   fst (run_middle_10 (ex_model ex_ellipsis) Map.empty []) = ex_ellipsis"
proof -
  have ok: "cr_ok (ex_model t (prompt_id Map.empty (py ''MIDDLE_10'') 3) [])" for t
    by (simp add: ex_model_def)
  have tx: "cr_text (ex_model t (prompt_id Map.empty (py ''MIDDLE_10'') 3) []) = t" for t
    by (simp add: ex_model_def)
  have many: "10 < length (sentences (strip ex_eleven))"
    by (simp add: ex_eleven_strip ex_eleven_sentences)
  have few: "length (sentences (strip ex_ellipsis)) \<le> 10"
    by (simp add: ex_ellipsis_strip ex_ellipsis_sentences)
  have j: "join (py ''. '') (take 10 (sentences (strip ex_eleven))) @ py ''.'' =
           py ''a. b. c. d. e. f. g. h. i. j.''"
    by (simp add: ex_eleven_strip ex_eleven_sentences py_def)
  from run_middle_10_sentences [of "ex_model ex_eleven" Map.empty "[]", unfolded Let_def tx]
       ok many
  have a: "fst (run_middle_10 (ex_model ex_eleven) Map.empty []) =
             join (py ''. '') (take 10 (sentences (strip ex_eleven))) @ py ''.''"
    and b: "length (sentences (fst (run_middle_10 (ex_model ex_eleven) Map.empty []))) = 10"
    by blast+
  from run_middle_10_sentences [of "ex_model ex_ellipsis" Map.empty "[]", unfolded Let_def tx]
       ok few
  have "fst (run_middle_10 (ex_model ex_ellipsis) Map.empty []) = strip ex_ellipsis"
    by blast
  then have c: "fst (run_middle_10 (ex_model ex_ellipsis) Map.empty []) = ex_ellipsis"
    by (simp add: ex_ellipsis_strip)
  from a j have a': "fst (run_middle_10 (ex_model ex_eleven) Map.empty []) =
      py ''a. b. c. d. e. f. g. h. i. j.''" by (rule trans)
  show ?thesis
    by (intro conjI) (rule ok many a' b few c)+
qed

section \<open>Properties of the retry function\<close>

lemma retry_loop_stops:
  "j < length ds \<Longrightarrow> \<forall>i < j. transient (func (k + i)) \<Longrightarrow> \<not> transient (func (k + j)) \<Longrightarrow>
   \<forall>d \<in> set ds. 0 \<le> d \<Longrightarrow>
   retry_loop func k ds last_error slept = (func (k + j), Suc (k + j), slept @ take (Suc j) ds)"
proof (induction ds arbitrary: j k last_error slept)
  case Nil
  then show ?case by simp
next
  case (Cons d ds)
  from Cons.prems(4) have d: "\<not> d < 0" by simp
  show ?case
  proof (cases j)
    case 0
    with Cons.prems(3) d show ?thesis
      by (cases "func k") (simp_all add: transient_def)
  next
    case (Suc j')
    from Cons.prems(2) Suc have t0: "transient (func k)" by (metis add.right_neutral zero_less_Suc)
    then obtain e where e: "func k = Inl e" "is_503_error e"
      by (cases "func k") (simp_all add: transient_def)
    have ih: "retry_loop func (Suc k) ds e (slept @ [d]) =
        (func (Suc k + j'), Suc (Suc k + j'), (slept @ [d]) @ take (Suc j') ds)"
    proof (rule Cons.IH)
      show "j' < length ds" using Cons.prems(1) Suc by simp
      show "\<forall>i<j'. transient (func (Suc k + i))"
      proof (intro allI impI)
        fix i assume "i < j'"
        then have "Suc i < j" using Suc by simp
        with Cons.prems(2) have "transient (func (k + Suc i))" by blast
        then show "transient (func (Suc k + i))" by simp
      qed
      show "\<not> transient (func (Suc k + j'))" using Cons.prems(3) Suc by simp
      show "\<forall>d\<in>set ds. 0 \<le> d" using Cons.prems(4) by simp
    qed
    with e d Suc show ?thesis by simp
  qed
qed

lemma retry_loop_exhausted:
  "\<forall>i < length ds. transient (func (k + i)) \<Longrightarrow> \<forall>d \<in> set ds. 0 \<le> d \<Longrightarrow>
   retry_loop func k ds last_error slept =
     ((if ds = [] then Inl last_error else func (k + length ds - 1)), k + length ds, slept @ ds)"
proof (induction ds arbitrary: k last_error slept)
  case Nil
  then show ?case by simp
next
  case (Cons d ds)
  from Cons.prems(2) have d: "\<not> d < 0" by simp
  from Cons.prems(1) have "transient (func (k + 0))" by blast
  then obtain e where e: "func k = Inl e" "is_503_error e"
    by (cases "func k") (simp_all add: transient_def)
  have ih: "retry_loop func (Suc k) ds e (slept @ [d]) =
     ((if ds = [] then Inl e else func (Suc k + length ds - 1)), Suc k + length ds, (slept @ [d]) @ ds)"
  proof (rule Cons.IH)
    show "\<forall>i<length ds. transient (func (Suc k + i))"
    proof (intro allI impI)
      fix i assume "i < length ds"
      then have "Suc i < length (d # ds)" by simp
      with Cons.prems(1) have "transient (func (k + Suc i))" by blast
      then show "transient (func (Suc k + i))" by simp
    qed
    show "\<forall>d\<in>set ds. 0 \<le> d" using Cons.prems(2) by simp
  qed
  with e d show ?case by (cases ds) simp_all
qed

lemma slice_to_length:
  "0 \<le> n \<Longrightarrow> length (slice_to n xs) = min (nat n) (length xs)"
  by (simp add: slice_to_def)

lemma set_slice_to: "set (slice_to n xs) \<subseteq> set xs"
  by (auto simp: slice_to_def dest: in_set_takeD)


lemma ex_503_transient: "is_503_error ex_503"
  by (simp add: is_503_error_def ex_503_def lower_def py_def startswith_def)

lemma ex_fatal_not_transient: "\<not> is_503_error ex_fatal"
  by (simp add: is_503_error_def ex_fatal_def lower_def py_def startswith_def)


text \<open>
  C10: with a schedule of non-negative delays, \<open>retry_on_503\<close> invokes the function
  again only after a transient failure, at most once per delay of
  \<open>backoff_ms[:max_retries]\<close> and after sleeping that delay.  The first invocation that
  does not fail transiently ends the run: its value is returned, or its fatal error is
  propagated, with no further invocation.  When every invocation fails transiently, the
  run ends after the last delay and propagates the error of the last invocation.  For a
  non-negative \<open>max_retries\<close> the number of retries is the smaller of \<open>max_retries\<close>
  and the length of \<open>backoff_ms\<close>; with the defaults, 3 and 1000, 2000, 4000 ms, the
  delays are 1 s, 2 s and 4 s.
\<close>

theorem retry_on_503_policy:
  assumes "\<forall>d \<in> set backoff_ms. 0 \<le> d"
  shows "(k \<le> length (slice_to max_retries backoff_ms) \<and> (\<forall>i < k. transient (func i)) \<and>
          \<not> transient (func k) \<longrightarrow>
            retry_on_503 func max_retries backoff_ms =
              (func k, Suc k, take k (slice_to max_retries backoff_ms))) \<and>
         ((\<forall>i \<le> length (slice_to max_retries backoff_ms). transient (func i)) \<longrightarrow>
            retry_on_503 func max_retries backoff_ms =
              (func (length (slice_to max_retries backoff_ms)),
               Suc (length (slice_to max_retries backoff_ms)),
               slice_to max_retries backoff_ms)) \<and>
         (0 \<le> max_retries \<longrightarrow>
            length (slice_to max_retries backoff_ms) = min (nat max_retries) (length backoff_ms))"
proof -
  define ds where "ds = slice_to max_retries backoff_ms"
  have nonneg: "\<forall>d \<in> set ds. 0 \<le> d"
    using assms set_slice_to[of max_retries backoff_ms] unfolding ds_def by blast
  have stop: "retry_on_503 func max_retries backoff_ms = (func k, Suc k, take k ds)"
    if k: "k \<le> length ds" and tr: "\<forall>i < k. transient (func i)" and nt: "\<not> transient (func k)"
  proof (cases k)
    case 0
    with nt show ?thesis
      by (cases "func 0") (simp_all add: retry_on_503_def transient_def)
  next
    case (Suc j)
    from tr Suc have "transient (func 0)" by simp
    then obtain e where e: "func 0 = Inl e" "is_503_error e"
      by (cases "func 0") (simp_all add: transient_def)
    have "retry_loop func 1 ds e [] = (func (1 + j), Suc (1 + j), [] @ take (Suc j) ds)"
    proof (rule retry_loop_stops)
      show "j < length ds" using k Suc by simp
      show "\<forall>i<j. transient (func (1 + i))" using tr Suc by simp
      show "\<not> transient (func (1 + j))" using nt Suc by simp
      show "\<forall>d\<in>set ds. 0 \<le> d" by (rule nonneg)
    qed
    with e Suc show ?thesis by (simp add: retry_on_503_def ds_def)
  qed
  have exhausted: "retry_on_503 func max_retries backoff_ms = (func (length ds), Suc (length ds), ds)"
    if tr: "\<forall>i \<le> length ds. transient (func i)"
  proof -
    from tr have "transient (func 0)" by simp
    then obtain e where e: "func 0 = Inl e" "is_503_error e"
      by (cases "func 0") (simp_all add: transient_def)
    have "retry_loop func 1 ds e [] =
        ((if ds = [] then Inl e else func (1 + length ds - 1)), 1 + length ds, [] @ ds)"
    proof (rule retry_loop_exhausted)
      show "\<forall>i<length ds. transient (func (1 + i))" using tr by simp
      show "\<forall>d\<in>set ds. 0 \<le> d" by (rule nonneg)
    qed
    with e show ?thesis by (cases ds) (simp_all add: retry_on_503_def ds_def)
  qed
  from stop exhausted slice_to_length[of max_retries backoff_ms]
  show ?thesis unfolding ds_def by blast
qed

theorem retry_on_503_policy_witness:
  "retry_on_503 ex_func_recover 3 [1000, 2000, 4000] = (Inr (py ''ok''), 2, [1000]) \<and>
   retry_on_503 ex_func_fatal 3 [1000, 2000, 4000] = (Inl ex_fatal, 1, []) \<and>
   retry_on_503 ex_func_down 3 [1000, 2000, 4000] = (Inl ex_503, 4, [1000, 2000, 4000]) \<and>
   length (slice_to 3 [1000, 2000, 4000 :: int]) = 3"
proof -
  have nonneg: "\<forall>d \<in> set [1000, 2000, 4000 :: int]. 0 \<le> d" by simp
  have sl: "slice_to 3 [1000, 2000, 4000 :: int] = [1000, 2000, 4000]"
    by (simp add: slice_to_def)
  have r0: "transient (ex_func_recover 0)" "\<not> transient (ex_func_recover 1)"
    by (simp_all add: transient_def ex_func_recover_def ex_503_transient)
  have f0: "\<not> transient (ex_func_fatal 0)"
    by (simp add: transient_def ex_func_fatal_def ex_fatal_not_transient)
  have d: "transient (ex_func_down i)" for i
    by (simp add: transient_def ex_func_down_def ex_503_transient)
  from retry_on_503_policy [OF nonneg, of 1 3 ex_func_recover] r0
  have a: "retry_on_503 ex_func_recover 3 [1000, 2000, 4000] = (Inr (py ''ok''), 2, [1000])"
    by (simp add: sl ex_func_recover_def)
  from retry_on_503_policy [OF nonneg, of 0 3 ex_func_fatal] f0
  have b: "retry_on_503 ex_func_fatal 3 [1000, 2000, 4000] = (Inl ex_fatal, 1, [])"
    by (simp add: sl ex_func_fatal_def)
  from retry_on_503_policy [OF nonneg, of 0 3 ex_func_down] d
  have c: "retry_on_503 ex_func_down 3 [1000, 2000, 4000] = (Inl ex_503, 4, [1000, 2000, 4000])"
    by (simp add: sl ex_func_down_def)
  from a b c sl show ?thesis by simp
qed

section \<open>Properties of the CLEAN stage\<close>

lemma parse_with_repair_unparseable:
  "unparseable loads t \<Longrightarrow> fst (parse_with_repair loads t) = JNull"
  by (auto simp: unparseable_def parse_with_repair_def try_parse_json_def Let_def isl_def
      split: option.splits sum.splits)


lemma chat_clean_data_unparseable:
  "unparseable loads t \<Longrightarrow>
   chat_clean_data loads t = JDict [(py ''clean'', JStr []), (py ''links'', JList [])]"
  by (auto simp: unparseable_def chat_clean_data_def isl_def split: option.splits sum.splits)

lemma chat_finish_no_error:
  "chat_finish c l f m s r = Inr res \<Longrightarrow> pr_error res = None"
  by (auto simp: chat_finish_def split: sum.splits)

lemma request5_no_error:
  "request5 loads py_str cl prompts mr bo c l f m s sent = (Inr res, sent') \<Longrightarrow>
   pr_error res = None"
  by (auto simp: request5_def Let_def chat_finish_no_error split: sum.splits prod.splits)

lemma request4_no_error:
  "request4 loads py_str cl prompts mr bo c l f m sent = (Inr res, sent') \<Longrightarrow>
   pr_error res = None"
  by (auto simp: request4_def Let_def request5_no_error split: sum.splits prod.splits)

lemma request3_no_error:
  "request3 loads py_str cl prompts mr bo c l f sent = (Inr res, sent') \<Longrightarrow>
   pr_error res = None"
  by (auto simp: request3_def Let_def request4_no_error split: sum.splits prod.splits)

lemma request2_no_error:
  "request2 loads py_str cl prompts mr bo c l sent = (Inr res, sent') \<Longrightarrow> pr_error res = None"
  by (auto simp: request2_def Let_def request3_no_error split: sum.splits prod.splits)

lemma request1_no_error:
  "request1 loads py_str cl prompts mr bo t = (Inr res, sent') \<Longrightarrow> pr_error res = None"
  by (auto simp: request1_def Let_def request2_no_error split: sum.splits prod.splits)

text \<open>
  The only error codes of \<open>process_transcript_chat\<close> are \<open>no_client\<close>, \<open>no_prompts\<close>
  and \<open>processing_error\<close>.
\<close>

lemma process_transcript_chat_codes:
  "pr_error (fst (process_transcript_chat loads py_str client prompts mr bo t)) = Some er \<Longrightarrow>
   e_code er = py ''no_client'' \<or> e_code er = py ''no_prompts'' \<or>
   e_code er = py ''processing_error''"
  by (auto simp: process_transcript_chat_def error_result_def request1_no_error
      split: option.splits if_splits sum.splits prod.splits)

lemma request_ex_client_plain:
  "request ex_client_plain 3 [1000, 2000, 4000] sent p =
     (Inr (py ''Sorry, I cannot help.''), sent @ [p])"
  by (simp add: request_def retry_on_503_def ex_client_plain_def response_text_def strip_def
      is_space_def py_def)

text \<open>
  C6, as the specification states it: when the response of the CLEAN stage is not
  parseable JSON, also after the brace-substring repair, and again on the one
  clarification retry, the pipeline result carries the error code \<open>invalid_json\<close> and
  its text and list fields are empty.  \<open>process_transcript_chat\<close> has no clarification
  retry.  With a client whose every response is the same unparseable sentence it sends
  the cleaning prompt once, takes the response for an empty cleaning result and the
  transcript for the clean text, and goes on to the four other requests: the result has
  no error, and its clean text, its three summaries and its resources are not empty.
\<close>

theorem process_transcript_chat_clean_counterexample:
  "unparseable ex_loads_reject (py ''Sorry, I cannot help.'') \<and>
   process_transcript_chat ex_loads_reject ex_py_str (Some ex_client_plain) ex_prompts 3
     [1000, 2000, 4000] (py ''Hello world'') =
   (\<lparr>pr_clean_text = JStr (py ''Hello world''), pr_links = JList [],
     pr_full_summary = py ''Sorry, I cannot help.'',
     pr_middle_summary = JStr (py ''Sorry, I cannot help.''),
     pr_short_summary = py ''Sorry, I cannot help.'',
     pr_resources = [py ''Sorry, I cannot help.''], pr_error = None\<rparr>,
    [py ''C Hello world'', py ''F Hello world'', py ''M Hello world'', py ''S Hello world'',
     py ''R Hello world''])"
proof -
  have un: "unparseable ex_loads_reject (py ''Sorry, I cannot help.'')"
    by (simp add: unparseable_def ex_loads_reject_def split: option.splits)
  have "process_transcript_chat ex_loads_reject ex_py_str (Some ex_client_plain) ex_prompts 3
     [1000, 2000, 4000] (py ''Hello world'') =
   (\<lparr>pr_clean_text = JStr (py ''Hello world''), pr_links = JList [],
     pr_full_summary = py ''Sorry, I cannot help.'',
     pr_middle_summary = JStr (py ''Sorry, I cannot help.''),
     pr_short_summary = py ''Sorry, I cannot help.'',
     pr_resources = [py ''Sorry, I cannot help.''], pr_error = None\<rparr>,
    [py ''C Hello world'', py ''F Hello world'', py ''M Hello world'', py ''S Hello world'',
     py ''R Hello world''])"
    by (simp add: process_transcript_chat_def request1_def request2_def request3_def
        request4_def request5_def request_ex_client_plain ex_prompts_def template_def py_def
        startswith_def chat_clean_data_def ex_loads_reject_def brace_search_def json_get_def
        replace_with_def chat_middle_text_def chat_middle_cap_def py_len_def chat_short_def
        links_str_def chat_resources_def resource_lines_def chat_finish_def strip_def
        is_space_def Let_def)
  with un show ?thesis by blast
qed

text \<open>
  C6, amended, for \<open>ai_pipeline.run_clean\<close>: when the first call succeeds with a
  response that is not parseable JSON, also after the brace-substring repair,
  \<open>run_clean\<close> makes exactly one more call, with the clarification appended to the
  transcript; when that call fails or its response is again unparseable, also after its
  own repair, the result carries the error code \<open>invalid_json\<close> and its \<open>clean\<close> and
  \<open>links\<close> fields are empty.  Its \<open>raw\<close> field keeps the text of the first response.
\<close>

theorem run_clean_invalid_json:
  assumes "cr_ok (call_model (prompt_id cfg (py ''CLEAN'') 1) transcript_text)"
    and "unparseable loads (cr_text (call_model (prompt_id cfg (py ''CLEAN'') 1) transcript_text))"
    and "\<not> cr_ok (call_model (prompt_id cfg (py ''CLEAN'') 1)
                  (transcript_text @ [10, 10] @ clarification_prompt)) \<or>
         unparseable loads (cr_text (call_model (prompt_id cfg (py ''CLEAN'') 1)
                  (transcript_text @ [10, 10] @ clarification_prompt)))"
  shows "\<exists>detail.
           run_clean loads py_str call_model cfg transcript_text =
             (Inr \<lparr>rc_clean = [], rc_links = [],
                   rc_raw = cr_text (call_model (prompt_id cfg (py ''CLEAN'') 1) transcript_text),
                   rc_error = Some \<lparr>e_code = py ''invalid_json'', e_detail = detail\<rparr>\<rparr>,
              [(prompt_id cfg (py ''CLEAN'') 1, transcript_text),
               (prompt_id cfg (py ''CLEAN'') 1,
                transcript_text @ [10, 10] @ clarification_prompt)])"
proof -
  define pid where "pid = prompt_id cfg (py ''CLEAN'') 1"
  define r1 where "r1 = call_model pid transcript_text"
  define r2 where "r2 = call_model pid (transcript_text @ [10, 10] @ clarification_prompt)"
  obtain perr where p1: "parse_with_repair loads (cr_text r1) = (JNull, perr)"
    using parse_with_repair_unparseable[OF assms(2)]
    by (cases "parse_with_repair loads (cr_text r1)") (simp add: pid_def r1_def)
  have "\<exists>perr'. (if cr_ok r2 then parse_with_repair loads (cr_text r2) else (JNull, perr)) =
          (JNull, perr')"
  proof (cases "cr_ok r2")
    case False
    then show ?thesis by simp
  next
    case True
    with assms(3) have "unparseable loads (cr_text r2)" by (simp add: pid_def r2_def)
    from parse_with_repair_unparseable[OF this] True show ?thesis
      by (cases "parse_with_repair loads (cr_text r2)") simp
  qed
  then obtain perr' where p2:
    "(if cr_ok r2 then parse_with_repair loads (cr_text r2) else (JNull, perr)) = (JNull, perr')"
    by blast
  have ok: "cr_ok r1" using assms(1) by (simp add: pid_def r1_def)
  have "run_clean loads py_str call_model cfg transcript_text =
          (finish_clean py_str (cr_text r1) JNull perr',
           [(pid, transcript_text), (pid, transcript_text @ [10, 10] @ clarification_prompt)])"
    unfolding run_clean_def Let_def pid_def[symmetric] r1_def[symmetric] r2_def[symmetric]
    using ok p1 p2 by simp
  then show ?thesis
    unfolding pid_def[symmetric] r1_def[symmetric] by (simp add: finish_clean_def)
qed


theorem run_clean_invalid_json_witness:
  "cr_ok (ex_model (py ''Sorry, I cannot help.'') (prompt_id Map.empty (py ''CLEAN'') 1) (py ''hello'')) \<and>
   unparseable ex_loads_reject (py ''Sorry, I cannot help.'') \<and>
   (\<exists>detail.
      run_clean ex_loads_reject ex_py_str (ex_model (py ''Sorry, I cannot help.'')) Map.empty
          (py ''hello'') =
        (Inr \<lparr>rc_clean = [], rc_links = [], rc_raw = py ''Sorry, I cannot help.'',
              rc_error = Some \<lparr>e_code = py ''invalid_json'', e_detail = detail\<rparr>\<rparr>,
         [(1, py ''hello''), (1, py ''hello'' @ [10, 10] @ clarification_prompt)]))"
proof -
  have ok: "cr_ok (ex_model t pid inp)" and tx: "cr_text (ex_model t pid inp) = t" for t pid inp
    by (simp_all add: ex_model_def)
  have un: "unparseable ex_loads_reject t" for t
    by (simp add: unparseable_def ex_loads_reject_def split: option.splits)
  have pid: "prompt_id Map.empty (py ''CLEAN'') 1 = 1"
    by (simp add: prompt_id_def)
  from run_clean_invalid_json [of "ex_model (py ''Sorry, I cannot help.'')" Map.empty "py ''hello''"
      ex_loads_reject ex_py_str, unfolded tx pid, OF ok un disjI2, OF un]
  have "\<exists>detail.
      run_clean ex_loads_reject ex_py_str (ex_model (py ''Sorry, I cannot help.'')) Map.empty
          (py ''hello'') =
        (Inr \<lparr>rc_clean = [], rc_links = [], rc_raw = py ''Sorry, I cannot help.'',
              rc_error = Some \<lparr>e_code = py ''invalid_json'', e_detail = detail\<rparr>\<rparr>,
         [(1, py ''hello''), (1, py ''hello'' @ [10, 10] @ clarification_prompt)])" .
  with ok un show ?thesis by blast
qed


section \<open>Properties of the RESOURCES stage\<close>

lemma link_of_url: "link_of v = Some l \<Longrightarrow> is_url l"
  by (cases v) (auto simp: is_url_def split: if_splits)

lemma valid_links_urls: "l \<in> set (valid_links ls) \<Longrightarrow> is_url l"
  unfolding valid_links_def
  by (induction ls) (auto split: option.splits dest: link_of_url)

lemma finish_clean_urls:
  "finish_clean py_str raw parsed perr = Inr r \<Longrightarrow> l \<in> set (rc_links r) \<Longrightarrow> is_url l"
  by (auto simp: finish_clean_def split: if_splits sum.splits json.splits
      dest: valid_links_urls)

lemma run_clean_urls:
  assumes "fst (run_clean loads py_str call_model cfg t) = Inr r" "l \<in> set (rc_links r)"
  shows "is_url l"
proof -
  from assms(1) have "r = \<lparr>rc_clean = [], rc_links = [], rc_raw = [],
        rc_error = cr_error (call_model (prompt_id cfg (py ''CLEAN'') 1) t)\<rparr> \<or>
      (\<exists>raw parsed perr. finish_clean py_str raw parsed perr = Inr r)"
    by (auto simp: run_clean_def Let_def split_beta split: if_splits)
  with assms(2) show ?thesis using finish_clean_urls by auto
qed

lemma strip_nonblank: "c \<in> set s \<Longrightarrow> \<not> is_space c \<Longrightarrow> strip s \<noteq> []"
proof -
  assume c: "c \<in> set s" "\<not> is_space c"
  define d where "d = dropWhile is_space s"
  have "s = takeWhile is_space s @ d" unfolding d_def by simp
  then have "set s = set (takeWhile is_space s) \<union> set d" by (metis set_append)
  moreover have "c \<notin> set (takeWhile is_space s)" using c(2) set_takeWhileD by metis
  ultimately have "c \<in> set (rev d)" using c(1) by simp
  with c(2) have "dropWhile is_space (rev d) \<noteq> []" by auto
  then show ?thesis by (simp add: strip_def d_def)
qed

lemma url_strip_nonblank: "is_url l \<Longrightarrow> strip l \<noteq> []"
proof -
  assume "is_url l"
  then have "l \<noteq> [] \<and> hd l = 104"
    by (cases l) (auto simp: is_url_def startswith_def py_def)
  then have "104 \<in> set l" by (cases l) auto
  moreover have "\<not> is_space 104" by (simp add: is_space_def)
  ultimately show ?thesis by (rule strip_nonblank)
qed

lemma set_add_distinct: "distinct xs \<Longrightarrow> distinct (set_add xs x)"
  by (simp add: set_add_def)

lemma set_set_add: "set (set_add xs x) = insert x (set xs)"
  by (auto simp: set_add_def)

lemma add_links_distinct: "distinct acc \<Longrightarrow> distinct (add_links acc links)"
  unfolding add_links_def
  by (induction links arbitrary: acc) (simp_all add: set_add_distinct)

lemma add_links_set:
  "set (add_links acc links) = set acc \<union> {strip l |l. l \<in> set links \<and> strip l \<noteq> []}"
  unfolding add_links_def
  by (induction links arbitrary: acc) (auto simp: set_set_add)

lemma add_lines_distinct: "distinct acc \<Longrightarrow> distinct (add_lines acc ls)"
  unfolding add_lines_def
  by (induction ls arbitrary: acc) (simp_all add: set_add_distinct Let_def)

lemma run_resources_distinct: "distinct (fst (run_resources call_model cfg clean_text links))"
  by (simp add: run_resources_def Let_def add_links_distinct add_lines_distinct)


lemma ex_run_clean:
  "fst (run_clean ex_loads_links ex_py_str (ex_model (py ''{}'')) Map.empty (py ''hello'')) =
     Inr \<lparr>rc_clean = py ''Intro and main part'', rc_links = ex_links, rc_raw = py ''{}'',
          rc_error = None\<rparr>"
  by (simp add: run_clean_def Let_def ex_model_def parse_with_repair_def try_parse_json_def
      ex_loads_links_def finish_clean_def json_get_def valid_links_def startswith_def py_def
      ex_links_def)


lemma request_ex_client_chat_first:
  "request ex_client_chat 3 [1000, 2000, 4000] [] p = (Inr ex_clean_json, [p])"
  by (simp add: request_def retry_on_503_def ex_client_chat_def response_text_def strip_def
      is_space_def ex_clean_json_def)

lemma request_ex_client_chat_later:
  "sent \<noteq> [] \<Longrightarrow> request ex_client_chat 3 [1000, 2000, 4000] sent p =
     (Inr (py ''Notion AI'' @ [10] @ py ''Notion AI''), sent @ [p])"
  by (simp add: request_def retry_on_503_def ex_client_chat_def response_text_def strip_def
      is_space_def py_def)

text \<open>
  C9, as the specification states it: whenever the links of the CLEAN stage are not
  empty, the RESOURCES stage does not call the model and derives its output from those
  links, and the resource list never holds a string twice.  In
  \<open>process_transcript_chat\<close> the fifth request is made whatever the links are, and the
  lines of its response are appended as they come.  Here the cleaning response carries
  one link; the resources prompt is sent all the same, and the two equal lines of its
  response are both in the resource list, which does not hold the link.
\<close>

theorem process_transcript_chat_resources_counterexample:
  "process_transcript_chat ex_loads_chat ex_py_str (Some ex_client_chat) ex_prompts 3
     [1000, 2000, 4000] (py ''Hello world'') =
   (\<lparr>pr_clean_text = JStr (py ''Intro''),
     pr_links = JList [JStr (py ''https://a.example/x'')],
     pr_full_summary = py ''Notion AI'' @ [10] @ py ''Notion AI'',
     pr_middle_summary = JStr (py ''Notion AI'' @ [10] @ py ''Notion AI''),
     pr_short_summary = py ''Notion AI'',
     pr_resources = [py ''Notion AI'', py ''Notion AI''], pr_error = None\<rparr>,
    [py ''C Hello world'', py ''F Intro'', py ''M Intro'', py ''S Intro'', py ''R Intro'']) \<and>
   \<not> distinct (pr_resources (fst (process_transcript_chat ex_loads_chat ex_py_str
       (Some ex_client_chat) ex_prompts 3 [1000, 2000, 4000] (py ''Hello world''))))"
proof -
  have "process_transcript_chat ex_loads_chat ex_py_str (Some ex_client_chat) ex_prompts 3
     [1000, 2000, 4000] (py ''Hello world'') =
   (\<lparr>pr_clean_text = JStr (py ''Intro''),
     pr_links = JList [JStr (py ''https://a.example/x'')],
     pr_full_summary = py ''Notion AI'' @ [10] @ py ''Notion AI'',
     pr_middle_summary = JStr (py ''Notion AI'' @ [10] @ py ''Notion AI''),
     pr_short_summary = py ''Notion AI'',
     pr_resources = [py ''Notion AI'', py ''Notion AI''], pr_error = None\<rparr>,
    [py ''C Hello world'', py ''F Intro'', py ''M Intro'', py ''S Intro'', py ''R Intro''])"
    by (simp add: process_transcript_chat_def request1_def request2_def request3_def
        request4_def request5_def request_ex_client_chat_first request_ex_client_chat_later
        ex_prompts_def template_def py_def startswith_def chat_clean_data_def ex_loads_chat_def
        ex_clean_json_def brace_search_def json_get_def replace_with_def chat_middle_text_def
        chat_middle_cap_def py_len_def chat_short_def links_str_def iter_json_def
        chat_resources_def resource_lines_def chat_finish_def strip_def is_space_def Let_def)
  then show ?thesis by simp
qed

text \<open>
  C9, amended, for \<open>ai_pipeline.run_resources\<close>: when the links that \<open>run_clean\<close>
  returned are not empty, \<open>run_resources\<close> makes no call to the collaborator and returns
  exactly those links, stripped, each once; and the list that \<open>run_resources\<close> returns
  never holds a string twice, whatever links it is given and whether or not the
  collaborator is called.
\<close>

theorem run_resources_links:
  assumes "fst (run_clean loads py_str clean_model cfg transcript_text) = Inr r"
    and "rc_links r \<noteq> []"
  shows "snd (run_resources call_model cfg' clean_text (rc_links r)) = [] \<and>
         set (fst (run_resources call_model cfg' clean_text (rc_links r))) = strip ` set (rc_links r) \<and>
         distinct (fst (run_resources call_model cfg' clean_text (rc_links r))) \<and>
         distinct (fst (run_resources call_model cfg' clean_text links))"
proof -
  have nb: "strip l \<noteq> []" if "l \<in> set (rc_links r)" for l
    using run_clean_urls[OF assms(1) that] by (rule url_strip_nonblank)
  have s: "set (add_links [] (rc_links r)) = strip ` set (rc_links r)"
    using nb by (auto simp: add_links_set)
  from assms(2) have "set (rc_links r) \<noteq> {}" by simp
  with s have ne: "add_links [] (rc_links r) \<noteq> []" by auto
  then have out: "run_resources call_model cfg' clean_text (rc_links r) =
      (add_links [] (rc_links r), [])"
    by (simp add: run_resources_def Let_def)
  from out s run_resources_distinct[of call_model cfg' clean_text links]
       add_links_distinct[of "[]" "rc_links r"]
  show ?thesis by simp
qed

theorem run_resources_links_witness:
  "fst (run_clean ex_loads_links ex_py_str (ex_model (py ''{}'')) Map.empty (py ''hello'')) =
     Inr \<lparr>rc_clean = py ''Intro and main part'', rc_links = ex_links, rc_raw = py ''{}'',
          rc_error = None\<rparr> \<and>
   ex_links \<noteq> [] \<and>
   snd (run_resources (ex_model (py ''none'')) Map.empty (py ''Intro and main part'') ex_links) = [] \<and>
   distinct (fst (run_resources (ex_model (py ''none'')) Map.empty (py ''Intro and main part'')
      ex_links)) \<and>
   set (fst (run_resources (ex_model (py ''none'')) Map.empty (py ''Intro and main part'')
      ex_links)) = {py ''https://a.example/x'', py ''http://c.example''}"
proof -
  have ne: "rc_links \<lparr>rc_clean = py ''Intro and main part'', rc_links = ex_links,
      rc_raw = py ''{}'', rc_error = None\<rparr> \<noteq> []"
    by (simp add: ex_links_def)
  have s1: "strip (py ''https://a.example/x'') = py ''https://a.example/x''"
    by (rule strip_id) (simp_all add: py_def is_space_def)
  have s2: "strip (py ''http://c.example'') = py ''http://c.example''"
    by (rule strip_id) (simp_all add: py_def is_space_def)
  have img: "strip ` set ex_links = {py ''https://a.example/x'', py ''http://c.example''}"
    by (simp add: ex_links_def s1 s2)
  from run_resources_links [OF ex_run_clean ne, of "ex_model (py ''none'')" Map.empty
      "py ''Intro and main part''" ex_links] img ex_run_clean
  show ?thesis by (simp add: ex_links_def)
qed

end
